theory Spec2Isabelle
  imports Main "HOL-Library.Word" "HOL-Library.Signed_Division"
begin

unbundle bit_operations_syntax

section \<open>Faults\<close>

text \<open>
  The library signals a zero divisor with \<^verbatim>\<open>std::overflow_error\<close> and a malformed
  literal with \<^verbatim>\<open>std::invalid_argument\<close>. Both are values of the model: a function
  that can throw returns \<open>error + 'a\<close>, with \<open>Inl\<close> for the exception.
\<close>

datatype error = DivisionByZero | InvalidFormat

section \<open>Constants (Constants.h)\<close>

definition BITS_PER_UINT32 :: nat where "BITS_PER_UINT32 = 32"
definition BITS_PER_UINT64 :: nat where "BITS_PER_UINT64 = 64"
definition UINT32_MAX_VALUE :: "64 word" where "UINT32_MAX_VALUE = 0xFFFFFFFF"
definition BIT_MASK_ONE :: "64 word" where "BIT_MASK_ONE = 1"
definition BIT_MASK_ZERO :: "64 word" where "BIT_MASK_ZERO = 0"
definition INT_128_MAX_BIT_INDEX :: nat where "INT_128_MAX_BIT_INDEX = 127"

section \<open>Int128 on the native path\<close>

text \<open>
  With \<^verbatim>\<open>NFX_DATATYPES_HAS_NATIVE_INT128\<close> the class holds one \<^verbatim>\<open>__int128\<close>,
  here a \<open>128 word\<close> read as two's complement. \<open>+\<close>, \<open>-\<close> and \<open>*\<close> are the
  machine operations (they wrap); \<^verbatim>\<open>/\<close> and \<^verbatim>\<open>%\<close> are C's truncating division
  and remainder on the signed values.
\<close>

type_synonym native128 = "128 word"

definition sdiv128 :: "native128 \<Rightarrow> native128 \<Rightarrow> native128" where
  "sdiv128 a b = word_of_int (sint a sdiv sint b)"

definition smod128 :: "native128 \<Rightarrow> native128 \<Rightarrow> native128" where
  "smod128 a b = word_of_int (sint a smod sint b)"

definition native_of_words :: "64 word \<Rightarrow> 64 word \<Rightarrow> native128" where
  "native_of_words low high = push_bit BITS_PER_UINT64 (ucast high) OR ucast low"

definition native_of_int64 :: "64 word \<Rightarrow> native128" where
  "native_of_int64 val = scast val"

definition native_of_uint64 :: "64 word \<Rightarrow> native128" where
  "native_of_uint64 val = ucast val"

definition native_add :: "native128 \<Rightarrow> native128 \<Rightarrow> native128" where
  "native_add this other = this + other"

definition native_sub :: "native128 \<Rightarrow> native128 \<Rightarrow> native128" where
  "native_sub this other = this - other"

definition native_mul :: "native128 \<Rightarrow> native128 \<Rightarrow> native128" where
  "native_mul this other = this * other"

definition native_div :: "native128 \<Rightarrow> native128 \<Rightarrow> error + native128" where
  "native_div this other =
     (if other = 0 then Inl DivisionByZero else Inr (sdiv128 this other))"

definition native_mod :: "native128 \<Rightarrow> native128 \<Rightarrow> error + native128" where
  "native_mod this other =
     (if other = 0 then Inl DivisionByZero else Inr (smod128 this other))"

definition native_neg :: "native128 \<Rightarrow> native128" where
  "native_neg this = - this"

definition native_isZero :: "native128 \<Rightarrow> bool" where
  "native_isZero this = (this = 0)"

definition native_isNegative :: "native128 \<Rightarrow> bool" where
  "native_isNegative this = (this <s 0)"

definition native_abs :: "native128 \<Rightarrow> native128" where
  "native_abs this = (if this <s 0 then - this else this)"

definition native_toLow :: "native128 \<Rightarrow> 64 word" where
  "native_toLow this = ucast this"

definition native_toHigh :: "native128 \<Rightarrow> 64 word" where
  "native_toHigh this = ucast (signed_drop_bit BITS_PER_UINT64 this)"

text \<open>
  A compound assignment changes its left operand. The model passes that operand as
  the state: the result is the exception raised, if any, and the value the target holds
  afterwards. \<^verbatim>\<open>operator/=\<close> and \<^verbatim>\<open>operator%=\<close> test the divisor before they touch
  \<^verbatim>\<open>m_value\<close>.
\<close>

definition native_div_assign :: "native128 \<Rightarrow> native128 \<Rightarrow> error option \<times> native128" where
  "native_div_assign this other =
     (if other = 0 then (Some DivisionByZero, this) else (None, sdiv128 this other))"

definition native_mod_assign :: "native128 \<Rightarrow> native128 \<Rightarrow> error option \<times> native128" where
  "native_mod_assign this other =
     (if other = 0 then (Some DivisionByZero, this) else (None, smod128 this other))"

section \<open>Int128 on the emulated path\<close>

text \<open>
  Without a native 128-bit integer the class holds \<^verbatim>\<open>m_layout\<close>, two 64-bit words
  read together as two's complement.
\<close>

record Layout =
  lower64bits :: "64 word"
  upper64bits :: "64 word"

definition Int128 :: "64 word \<Rightarrow> 64 word \<Rightarrow> Layout" where
  "Int128 low high = \<lparr>lower64bits = low, upper64bits = high\<rparr>"

definition Int128_of_int64 :: "64 word \<Rightarrow> Layout" where
  "Int128_of_int64 val =
     \<lparr>lower64bits = val, upper64bits = (if val <s 0 then - 1 else 0)\<rparr>"

definition Int128_of_uint64 :: "64 word \<Rightarrow> Layout" where
  "Int128_of_uint64 val = \<lparr>lower64bits = val, upper64bits = 0\<rparr>"

definition emulated_isZero :: "Layout \<Rightarrow> bool" where
  "emulated_isZero this = (lower64bits this = 0 \<and> upper64bits this = 0)"

definition emulated_isNegative :: "Layout \<Rightarrow> bool" where
  "emulated_isNegative this = (upper64bits this <s 0)"

definition emulated_add :: "Layout \<Rightarrow> Layout \<Rightarrow> Layout" where
  "emulated_add this other =
     (let result_low = lower64bits this + lower64bits other;
          carry = (if result_low < lower64bits this then BIT_MASK_ONE else BIT_MASK_ZERO);
          result_high = upper64bits this + upper64bits other + carry
      in Int128 result_low result_high)"

definition emulated_sub :: "Layout \<Rightarrow> Layout \<Rightarrow> Layout" where
  "emulated_sub this other =
     (let result_low = lower64bits this - lower64bits other;
          borrow = (if lower64bits this < lower64bits other then BIT_MASK_ONE else BIT_MASK_ZERO);
          result_high = upper64bits this - upper64bits other - borrow
      in Int128 result_low result_high)"

definition emulated_mul :: "Layout \<Rightarrow> Layout \<Rightarrow> Layout" where
  "emulated_mul this other =
     (let a_low = lower64bits this AND UINT32_MAX_VALUE;
          a_high = drop_bit BITS_PER_UINT32 (lower64bits this);
          b_low = lower64bits other AND UINT32_MAX_VALUE;
          b_high = drop_bit BITS_PER_UINT32 (lower64bits other);
          p0 = a_low * b_low;
          p1 = a_low * b_high;
          p2 = a_high * b_low;
          p3 = a_high * b_high;
          carry = drop_bit BITS_PER_UINT32
                    (drop_bit BITS_PER_UINT32 p0 + (p1 AND UINT32_MAX_VALUE)
                       + (p2 AND UINT32_MAX_VALUE));
          result_low = p0 + push_bit BITS_PER_UINT32 p1 + push_bit BITS_PER_UINT32 p2;
          result_high = p3 + drop_bit BITS_PER_UINT32 p1 + drop_bit BITS_PER_UINT32 p2 + carry
                          + upper64bits this * lower64bits other
                          + lower64bits this * upper64bits other
      in Int128 result_low result_high)"

definition emulated_neg :: "Layout \<Rightarrow> Layout" where
  "emulated_neg this =
     emulated_add (Int128 (NOT (lower64bits this)) (NOT (upper64bits this))) (Int128_of_int64 1)"

definition emulated_eq :: "Layout \<Rightarrow> Layout \<Rightarrow> bool" where
  "emulated_eq this other =
     (lower64bits this = lower64bits other \<and> upper64bits this = upper64bits other)"

definition emulated_lt :: "Layout \<Rightarrow> Layout \<Rightarrow> bool" where
  "emulated_lt this other =
     (if upper64bits this = upper64bits other
      then lower64bits this < lower64bits other
      else upper64bits this <s upper64bits other)"

definition emulated_abs :: "Layout \<Rightarrow> Layout" where
  "emulated_abs this = (if emulated_isNegative this then emulated_neg this else this)"

subsection \<open>Division, tier by tier\<close>

text \<open>The 128/64 tier: the divisor fits the low word, the dividend does not.\<close>

definition div_128_by_64 :: "Layout \<Rightarrow> 64 word \<Rightarrow> Layout" where
  "div_128_by_64 this divisor =
     (let high_quotient = upper64bits this div divisor;
          high_remainder = upper64bits this mod divisor
      in if high_remainder = 0
         then Int128 (lower64bits this div divisor) high_quotient
         else
           (let low_high = drop_bit BITS_PER_UINT32 (lower64bits this);
                low_low = lower64bits this AND UINT32_MAX_VALUE;
                temp_dividend = push_bit BITS_PER_UINT32 high_remainder + low_high;
                temp_quotient = temp_dividend div divisor;
                temp_remainder = temp_dividend mod divisor;
                final_dividend = push_bit BITS_PER_UINT32 temp_remainder + low_low;
                final_quotient = final_dividend div divisor;
                low_quotient = push_bit BITS_PER_UINT32 temp_quotient + final_quotient
            in Int128 low_quotient high_quotient))"

text \<open>
  The 128/128 tier is a restoring division on the absolute values. Its loop runs
  \<^verbatim>\<open>i\<close> from 127 down to 0; \<open>long_division (Suc i)\<close> is the iteration for bit \<open>i\<close>
  followed by the remaining ones.
\<close>

definition dividend_bit :: "Layout \<Rightarrow> nat \<Rightarrow> bool" where
  "dividend_bit abs_dividend i =
     (if i \<ge> BITS_PER_UINT64
      then drop_bit (i - BITS_PER_UINT64) (upper64bits abs_dividend) AND 1 = 1
      else drop_bit i (lower64bits abs_dividend) AND 1 = 1)"

definition set_quotient_bit :: "Layout \<Rightarrow> nat \<Rightarrow> Layout" where
  "set_quotient_bit quot i =
     (if i \<ge> BITS_PER_UINT64
      then quot\<lparr>upper64bits :=
             upper64bits quot OR push_bit (i - BITS_PER_UINT64) BIT_MASK_ONE\<rparr>
      else quot\<lparr>lower64bits := lower64bits quot OR push_bit i BIT_MASK_ONE\<rparr>)"

fun long_division :: "nat \<Rightarrow> Layout \<Rightarrow> Layout \<Rightarrow> Layout \<times> Layout \<Rightarrow> Layout \<times> Layout" where
  "long_division 0 abs_dividend abs_divisor (quot, remainder) = (quot, remainder)"
| "long_division (Suc i) abs_dividend abs_divisor (quot, remainder) =
     (let shifted = emulated_add remainder remainder;
          remainder1 = (if dividend_bit abs_dividend i
                        then emulated_add shifted (Int128 1 0) else shifted)
      in if emulated_lt remainder1 abs_divisor
         then long_division i abs_dividend abs_divisor (quot, remainder1)
         else long_division i abs_dividend abs_divisor
                (set_quotient_bit quot i, emulated_sub remainder1 abs_divisor))"

definition div_128_by_128 :: "Layout \<Rightarrow> Layout \<Rightarrow> Layout" where
  "div_128_by_128 this other =
     (let flip1 = emulated_isNegative this;
          abs_dividend = (if flip1 then emulated_neg this else this);
          flip2 = emulated_isNegative other;
          abs_divisor = (if flip2 then emulated_neg other else other);
          result_negative = (flip1 \<noteq> flip2)
      in if emulated_lt abs_dividend abs_divisor then Int128 0 0
         else if emulated_eq abs_dividend abs_divisor
         then (if result_negative then emulated_sub (Int128 0 0) (Int128 1 0) else Int128 1 0)
         else
           (let quot = fst (long_division (Suc INT_128_MAX_BIT_INDEX) abs_dividend
                                  abs_divisor (Int128 0 0, Int128 0 0))
            in if result_negative then emulated_sub (Int128 0 0) quot else quot))"

definition emulated_div :: "Layout \<Rightarrow> Layout \<Rightarrow> error + Layout" where
  "emulated_div this other =
     (if emulated_isZero other then Inl DivisionByZero
      else if upper64bits this = 0 \<and> upper64bits other = 0
      then Inr (Int128 (lower64bits this div lower64bits other) 0)
      else if upper64bits other = 0
      then Inr (div_128_by_64 this (lower64bits other))
      else Inr (div_128_by_128 this other))"

definition emulated_mod :: "Layout \<Rightarrow> Layout \<Rightarrow> error + Layout" where
  "emulated_mod this other =
     (if emulated_isZero other then Inl DivisionByZero
      else if upper64bits this = 0 \<and> upper64bits other = 0
      then Inr (Int128 (lower64bits this mod lower64bits other) 0)
      else (case emulated_div this other of
              Inl e \<Rightarrow> Inl e
            | Inr quot \<Rightarrow> Inr (emulated_sub this (emulated_mul quot other))))"

text \<open>
  \<^verbatim>\<open>operator/=\<close> assigns the quotient to \<^verbatim>\<open>*this\<close>; when the division throws, the
  assignment is not reached. \<^verbatim>\<open>operator%=\<close> tests the divisor itself first.
\<close>

definition emulated_div_assign :: "Layout \<Rightarrow> Layout \<Rightarrow> error option \<times> Layout" where
  "emulated_div_assign this other =
     (case emulated_div this other of
        Inl e \<Rightarrow> (Some e, this)
      | Inr q \<Rightarrow> (None, q))"

definition emulated_mod_assign :: "Layout \<Rightarrow> Layout \<Rightarrow> error option \<times> Layout" where
  "emulated_mod_assign this other =
     (if emulated_isZero other then (Some DivisionByZero, this)
      else (case emulated_mod this other of
              Inl e \<Rightarrow> (Some e, this)
            | Inr r \<Rightarrow> (None, r)))"

text \<open>The value an emulated \<^verbatim>\<open>Int128\<close> stands for, as the native word with the same bits.\<close>

definition to_native :: "Layout \<Rightarrow> native128" where
  "to_native x = native_of_words (lower64bits x) (upper64bits x)"

section \<open>Decimal: layout, constants and accessors\<close>

definition DECIMAL_BASE :: "64 word" where "DECIMAL_BASE = 10"
definition DECIMAL_96BIT_MAX_LOW :: "64 word" where "DECIMAL_96BIT_MAX_LOW = 0xFFFFFFFFFFFFFFFF"
definition DECIMAL_96BIT_MAX_HIGH :: "64 word" where "DECIMAL_96BIT_MAX_HIGH = 0x00000000FFFFFFFF"
definition INT128_MUL10_OVERFLOW_THRESHOLD :: "64 word" where
  "INT128_MUL10_OVERFLOW_THRESHOLD = 0x1999999999999999"
definition DECIMAL_MAX_MANTISSA_0 :: "32 word" where "DECIMAL_MAX_MANTISSA_0 = 0xFFFFFFFF"
definition DECIMAL_MAX_MANTISSA_1 :: "32 word" where "DECIMAL_MAX_MANTISSA_1 = 0xFFFFFFFF"
definition DECIMAL_MAX_MANTISSA_2 :: "32 word" where "DECIMAL_MAX_MANTISSA_2 = 0xFFFFFFFF"
definition DECIMAL_MAXIMUM_PLACES :: "8 word" where "DECIMAL_MAXIMUM_PLACES = 28"
definition DECIMAL_DIVISION_EXTRA_PRECISION :: "8 word" where
  "DECIMAL_DIVISION_EXTRA_PRECISION = 18"
definition DECIMAL_ROUNDING_THRESHOLD :: "8 word" where "DECIMAL_ROUNDING_THRESHOLD = 5"
definition DECIMAL_SCALE_MASK :: "32 word" where "DECIMAL_SCALE_MASK = 0x00FF0000"
definition DECIMAL_SIGN_MASK :: "32 word" where "DECIMAL_SIGN_MASK = 0x80000000"
definition DECIMAL_SCALE_SHIFT :: nat where "DECIMAL_SCALE_SHIFT = 16"
definition DECIMAL_MAX_STRING_LENGTH :: nat where "DECIMAL_MAX_STRING_LENGTH = 64"
definition DECIMAL_POWER_TABLE_SIZE :: "8 word" where "DECIMAL_POWER_TABLE_SIZE = 20"
definition DECIMAL_EXTENDED_POWER_MIN :: "8 word" where "DECIMAL_EXTENDED_POWER_MIN = 20"
definition DECIMAL_EXTENDED_POWER_MAX :: "8 word" where "DECIMAL_EXTENDED_POWER_MAX = 28"

definition DECIMAL_POWERS_OF_10 :: "64 word list" where
  "DECIMAL_POWERS_OF_10 =
     [1, 10, 100, 1000, 10000, 100000, 1000000, 10000000, 100000000, 1000000000,
      10000000000, 100000000000, 1000000000000, 10000000000000, 100000000000000,
      1000000000000000, 10000000000000000, 100000000000000000, 1000000000000000000,
      10000000000000000000]"

definition DECIMAL_EXTENDED_POWERS_OF_10 :: "(64 word \<times> 64 word) list" where
  "DECIMAL_EXTENDED_POWERS_OF_10 =
     [(0x6BC75E2D63100000, 0x0000000000000005),
      (0x35C9ADC5DEA00000, 0x0000000000000036),
      (0x19E0C9BAB2400000, 0x000000000000021E),
      (0x02C7E14AF6800000, 0x000000000000152D),
      (0x1BCECCEDA1000000, 0x000000000000D3C2),
      (0x161401484A000000, 0x0000000000084595),
      (0xDCC80CD2E4000000, 0x000000000052B7D2),
      (0x9FD0803CE8000000, 0x00000000033B2E3C),
      (0x3E25026110000000, 0x00000000204FCE5E)]"

text \<open>
  \<^verbatim>\<open>m_layout\<close>: a flags word (bits 16 to 23 the scale, bit 31 the sign) and the 96-bit
  mantissa as three 32-bit words, least significant first.
\<close>

record Decimal =
  flags :: "32 word"
  mantissa0 :: "32 word"
  mantissa1 :: "32 word"
  mantissa2 :: "32 word"

text \<open>
  Decimal.cpp is written against the interface of \<^verbatim>\<open>Int128\<close>. The model takes the
  native path for it, so an \<^verbatim>\<open>Int128\<close> inside a Decimal operation is a \<open>native128\<close>.
  Where the source divides by the constant ten or two, the zero test of
  \<^verbatim>\<open>operator/\<close> cannot fire and the model uses \<open>sdiv128\<close> and \<open>smod128\<close> directly.
\<close>

definition ten :: native128 where
  "ten = native_of_uint64 DECIMAL_BASE"

definition Decimal_zero :: Decimal where
  "Decimal_zero = \<lparr>flags = 0, mantissa0 = 0, mantissa1 = 0, mantissa2 = 0\<rparr>"

definition scale :: "Decimal \<Rightarrow> 8 word" where
  "scale this = ucast (drop_bit DECIMAL_SCALE_SHIFT (flags this AND DECIMAL_SCALE_MASK))"

definition isNegative :: "Decimal \<Rightarrow> bool" where
  "isNegative this = (flags this AND DECIMAL_SIGN_MASK \<noteq> 0)"

definition isZero :: "Decimal \<Rightarrow> bool" where
  "isZero this = (mantissa0 this = 0 \<and> mantissa1 this = 0 \<and> mantissa2 this = 0)"

definition set_sign :: "Decimal \<Rightarrow> Decimal" where
  "set_sign d = d\<lparr>flags := flags d OR DECIMAL_SIGN_MASK\<rparr>"

fun times_ten_loop :: "nat \<Rightarrow> native128 \<Rightarrow> native128" where
  "times_ten_loop 0 result = result"
| "times_ten_loop (Suc n) result = times_ten_loop n (native_mul result ten)"

definition getPowerOf10 :: "8 word \<Rightarrow> native128" where
  "getPowerOf10 pwr =
     (if pwr < DECIMAL_POWER_TABLE_SIZE \<and> DECIMAL_POWERS_OF_10 ! unat pwr \<noteq> 0
      then native_of_uint64 (DECIMAL_POWERS_OF_10 ! unat pwr)
      else if DECIMAL_EXTENDED_POWER_MIN \<le> pwr \<and> pwr \<le> DECIMAL_EXTENDED_POWER_MAX
      then (let extended = DECIMAL_EXTENDED_POWERS_OF_10 ! unat (pwr - DECIMAL_EXTENDED_POWER_MIN)
            in native_of_words (fst extended) (snd extended))
      else times_ten_loop (unat pwr) (native_of_int64 1))"

definition mantissaAsInt128 :: "Decimal \<Rightarrow> native128" where
  "mantissaAsInt128 decimal =
     push_bit BITS_PER_UINT64 (ucast (mantissa2 decimal))
       OR push_bit BITS_PER_UINT32 (ucast (mantissa1 decimal))
       OR ucast (mantissa0 decimal)"

definition alignScale :: "Decimal \<Rightarrow> Decimal \<Rightarrow> native128 \<times> native128" where
  "alignScale decimal other =
     (let left = mantissaAsInt128 decimal;
          right = mantissaAsInt128 other;
          leftScale = scale decimal;
          rightScale = scale other
      in if leftScale < rightScale
         then (native_mul left (getPowerOf10 (rightScale - leftScale)), right)
         else if rightScale < leftScale
         then (left, native_mul right (getPowerOf10 (leftScale - rightScale)))
         else (left, right))"

definition setMantissa :: "Decimal \<Rightarrow> native128 \<Rightarrow> Decimal" where
  "setMantissa decimal val =
     decimal\<lparr>mantissa0 := ucast val,
             mantissa1 := ucast (signed_drop_bit BITS_PER_UINT32 val),
             mantissa2 := ucast (signed_drop_bit BITS_PER_UINT64 val)\<rparr>"

text \<open>
  \<^verbatim>\<open>divideByPowerOf10\<close> is only ever called with the power 1, whose table entry is ten.
\<close>

definition divideByPowerOf10 :: "Decimal \<Rightarrow> 8 word \<Rightarrow> Decimal" where
  "divideByPowerOf10 decimal pwr =
     setMantissa decimal (sdiv128 (mantissaAsInt128 decimal) (getPowerOf10 pwr))"

definition set_scale :: "Decimal \<Rightarrow> 32 word \<Rightarrow> Decimal" where
  "set_scale decimal s =
     decimal\<lparr>flags := (flags decimal AND NOT DECIMAL_SCALE_MASK)
                          OR push_bit DECIMAL_SCALE_SHIFT s\<rparr>"

definition normalize_step :: "Decimal \<Rightarrow> Decimal" where
  "normalize_step decimal =
     (let decimal1 = divideByPowerOf10 decimal 1;
          currentScale = scale decimal1
      in set_scale decimal1 (ucast currentScale - 1))"

text \<open>
  The loop of \<^verbatim>\<open>normalize\<close> runs while the scale is positive and ten divides the
  mantissa. Each round lowers the scale field by one, which is why it ends.
\<close>

lemma DECIMAL_SCALE_MASK_bits: "DECIMAL_SCALE_MASK = push_bit 16 (mask 8)"
  by (simp add: DECIMAL_SCALE_MASK_def mask_eq_exp_minus_1)

lemma scale_set_scale: "scale (set_scale d (ucast (s :: 8 word))) = s"
  unfolding scale_def set_scale_def DECIMAL_SCALE_MASK_bits DECIMAL_SCALE_SHIFT_def
  by (rule bit_word_eqI) (auto simp add: bit_simps)

lemma unat_ucast_8_32: "unat (ucast (s :: 8 word) :: 32 word) = unat s"
  by (simp add: unsigned_ucast_eq take_bit_nat_eq_self_iff)
    (use unsigned_less [of s, where ?'a = nat] in simp)

lemma ucast_minus_1:
  assumes "s \<noteq> 0"
  shows "(ucast (s :: 8 word) :: 32 word) - 1 = ucast (s - 1)"
proof -
  have nz: "(ucast s :: 32 word) \<noteq> 0"
    using assms by (simp add: word_unat_eq_iff unat_ucast_8_32)
  have "unat ((ucast s :: 32 word) - 1) = unat s - 1"
    using nz by (simp add: unat_minus_one unat_ucast_8_32)
  moreover have "unat (ucast (s - 1) :: 32 word) = unat s - 1"
    using assms by (simp add: unat_ucast_8_32 unat_minus_one)
  ultimately show ?thesis by (simp add: word_unat_eq_iff)
qed

lemma scale_setMantissa: "scale (setMantissa d v) = scale d"
  by (simp add: scale_def setMantissa_def)

lemma scale_normalize_step: "scale d \<noteq> 0 \<Longrightarrow> scale (normalize_step d) = scale d - 1"
  by (simp add: normalize_step_def Let_def divideByPowerOf10_def scale_setMantissa
      ucast_minus_1 scale_set_scale)

function normalize_decimal :: "Decimal \<Rightarrow> Decimal" where
  "normalize_decimal decimal =
     (if 0 < scale decimal \<and> smod128 (mantissaAsInt128 decimal) ten = native_of_int64 0
      then normalize_decimal (normalize_step decimal)
      else decimal)"
  by pat_completeness auto
termination
proof (relation "measure (\<lambda>d. unat (scale d))")
  show "wf (measure (\<lambda>d. unat (scale d)))" by simp
next
  fix decimal :: Decimal
  assume "0 < scale decimal \<and> smod128 (mantissaAsInt128 decimal) ten = native_of_int64 0"
  then have nz: "scale decimal \<noteq> 0" by auto
  then have "unat (scale (normalize_step decimal)) = unat (scale decimal) - 1"
    by (simp add: scale_normalize_step unat_minus_one)
  moreover have "unat (scale decimal) \<noteq> 0"
    using nz by (simp add: unat_eq_0)
  ultimately show "(normalize_step decimal, decimal) \<in> measure (\<lambda>d. unat (scale d))"
    by simp
qed

declare normalize_decimal.simps [simp del]

section \<open>Decimal: construction\<close>

definition Decimal_of_int32 :: "32 word \<Rightarrow> Decimal" where
  "Decimal_of_int32 val =
     (if val <s 0
      then Decimal_zero\<lparr>flags := DECIMAL_SIGN_MASK, mantissa0 := - val\<rparr>
      else Decimal_zero\<lparr>mantissa0 := val\<rparr>)"

definition Decimal_of_int64 :: "64 word \<Rightarrow> Decimal" where
  "Decimal_of_int64 val =
     (if val <s 0
      then Decimal_zero\<lparr>flags := DECIMAL_SIGN_MASK,
             mantissa0 := ucast (- val),
             mantissa1 := ucast (signed_drop_bit BITS_PER_UINT32 (- val))\<rparr>
      else Decimal_zero\<lparr>mantissa0 := ucast val,
             mantissa1 := ucast (signed_drop_bit BITS_PER_UINT32 val)\<rparr>)"

definition maxValue :: Decimal where
  "maxValue = Decimal_zero\<lparr>mantissa0 := DECIMAL_MAX_MANTISSA_0,
                mantissa1 := DECIMAL_MAX_MANTISSA_1, mantissa2 := DECIMAL_MAX_MANTISSA_2\<rparr>"

section \<open>Decimal: arithmetic\<close>

text \<open>
  \<^verbatim>\<open>operator+\<close>. The result starts from the flags of the left operand with the scale
  field replaced, so the sign bit of the left operand is in the result before the
  sign is decided.
\<close>

definition decimal_add :: "Decimal \<Rightarrow> Decimal \<Rightarrow> Decimal" where
  "decimal_add this other =
     (if isZero this then other
      else if isZero other then this
      else
        (let (left, right) = alignScale this other;
             result0 = setMantissa Decimal_zero (native_add left right);
             result1 = result0\<lparr>flags := (flags this AND NOT DECIMAL_SCALE_MASK)
                          OR push_bit DECIMAL_SCALE_SHIFT (ucast (max (scale this) (scale other)))\<rparr>;
             result2 =
               (if isNegative this = isNegative other
                then (if isNegative this then set_sign result1 else result1)
                else if right <s left
                then (let r = setMantissa result1 (native_sub left right)
                      in if isNegative this then set_sign r else r)
                else (let r = setMantissa result1 (native_sub right left)
                      in if isNegative other then set_sign r else r))
         in normalize_decimal result2))"

definition decimal_neg :: "Decimal \<Rightarrow> Decimal" where
  "decimal_neg this = this\<lparr>flags := flags this XOR DECIMAL_SIGN_MASK\<rparr>"

definition decimal_sub :: "Decimal \<Rightarrow> Decimal \<Rightarrow> Decimal" where
  "decimal_sub this other = decimal_add this (decimal_neg other)"

text \<open>
  Dividing by ten shrinks the magnitude of a nonzero \<^verbatim>\<open>Int128\<close> and cannot overflow;
  the loops that drop digits end for that reason.
\<close>

lemma scale_pred_less: "(0 :: 8 word) < s \<Longrightarrow> unat (s - 1) < unat s"
  by (simp add: unat_minus_one word_greater_zero_iff unat_gt_0)

lemma ten_eq: "ten = 10"
  by (simp add: ten_def native_of_uint64_def DECIMAL_BASE_def)

lemma abs_sdiv_int: "\<bar>k sdiv l\<bar> = \<bar>k\<bar> div \<bar>l :: int\<bar>"
proof -
  have "0 \<le> \<bar>k\<bar> div \<bar>l\<bar>" by (simp add: div_int_pos_iff)
  then show ?thesis
    by (cases "k = 0"; cases "l = 0")
      (simp_all add: signed_divide_int_def abs_mult abs_sgn_eq)
qed

lemma abs_sdiv_10_less: "k \<noteq> 0 \<Longrightarrow> \<bar>k sdiv 10\<bar> < \<bar>k :: int\<bar>"
  using int_div_less_self [of "\<bar>k\<bar>" 10] by (simp add: abs_sdiv_int)

lemma sint_sdiv128_ten: "sint (sdiv128 m ten) = sint m sdiv 10"
proof -
  have b: "- (2 ^ 127) \<le> sint m" "sint m < 2 ^ 127"
    using sint_ge [of m] sint_lt [of m] by simp_all
  have "- (2 ^ 127) \<le> sint m sdiv 10 \<and> sint m sdiv 10 < 2 ^ 127"
  proof (cases "sint m = 0")
    case True
    then show ?thesis by simp
  next
    case False
    then have "\<bar>sint m sdiv 10\<bar> < \<bar>sint m\<bar>" by (rule abs_sdiv_10_less)
    then show ?thesis using b by linarith
  qed
  then have "signed_take_bit (128 - 1) (sint m sdiv 10) = sint m sdiv 10"
    by (intro signed_take_bit_int_eq_self) simp_all
  then show ?thesis
    unfolding sdiv128_def ten_eq by (simp add: sint_sbintrunc')
qed

lemma shrink_measure:
  assumes "native_toHigh m > UINT32_MAX_VALUE"
  shows "nat \<bar>sint (sdiv128 m ten)\<bar> < nat \<bar>sint m\<bar>"
proof -
  have "m \<noteq> 0" using assms by (auto simp add: native_toHigh_def)
  then have "sint m \<noteq> 0" by (simp add: signed_eq_0_iff)
  then have "\<bar>sint m sdiv 10\<bar> < \<bar>sint m\<bar>" by (rule abs_sdiv_10_less)
  then show ?thesis by (simp add: sint_sdiv128_ten)
qed

text \<open>
  \<^verbatim>\<open>operator*\<close>. While the product exceeds 96 bits or the combined scale exceeds 28,
  the loop drops a digit and decrements the scale, an unsigned 8-bit counter that wraps
  below zero. It leaves early once the scale is zero and the product still too large.
\<close>

definition max96bit :: native128 where
  "max96bit = native_of_words DECIMAL_96BIT_MAX_LOW DECIMAL_96BIT_MAX_HIGH"

lemma sint_max96bit: "sint max96bit = 2 ^ 96 - 1"
  by (simp add: max96bit_def native_of_words_def DECIMAL_96BIT_MAX_LOW_def
      DECIMAL_96BIT_MAX_HIGH_def BITS_PER_UINT64_def)

lemma abs_sdiv_10_le: "\<bar>k sdiv 10\<bar> \<le> \<bar>k :: int\<bar>"
  using abs_sdiv_10_less [of k] by (cases "k = 0") simp_all

lemma reduce_product_measure:
  assumes "max96bit <s p \<or> DECIMAL_MAXIMUM_PLACES < s"
  shows "((sdiv128 p ten, s - 1), (p, s))
           \<in> (\<lambda>(p, s). nat \<bar>sint p\<bar>) <*mlex*> measure (\<lambda>(p, s). unat (s :: 8 word))"
proof (cases "max96bit <s p")
  case True
  then have "0 < sint p" by (simp add: word_sless_alt sint_max96bit)
  then have "\<bar>sint p sdiv 10\<bar> < \<bar>sint p\<bar>" by (intro abs_sdiv_10_less) simp
  then have "nat \<bar>sint (sdiv128 p ten)\<bar> < nat \<bar>sint p\<bar>"
    by (simp add: sint_sdiv128_ten)
  then show ?thesis by (intro mlex_less) simp
next
  case False
  with assms have "0 < s" by (auto simp add: DECIMAL_MAXIMUM_PLACES_def word_greater_zero_iff)
  then have "unat (s - 1) < unat s" by (rule scale_pred_less)
  moreover have "\<bar>sint p sdiv 10\<bar> \<le> \<bar>sint p\<bar>" by (rule abs_sdiv_10_le)
  then have "nat \<bar>sint (sdiv128 p ten)\<bar> \<le> nat \<bar>sint p\<bar>"
    by (simp add: sint_sdiv128_ten)
  ultimately show ?thesis by (intro mlex_leq) simp_all
qed

function reduce_product :: "native128 \<times> 8 word \<Rightarrow> native128 \<times> 8 word" where
  "reduce_product (productMantissa, newScale) =
     (if max96bit <s productMantissa \<or> DECIMAL_MAXIMUM_PLACES < newScale
      then (if newScale - 1 = 0 \<and> max96bit <s sdiv128 productMantissa ten
            then (sdiv128 productMantissa ten, newScale - 1)
            else reduce_product (sdiv128 productMantissa ten, newScale - 1))
      else (productMantissa, newScale))"
  by pat_completeness auto
termination
proof (relation "(\<lambda>(p, s). nat \<bar>sint p\<bar>) <*mlex*> measure (\<lambda>(p, s). unat (s :: 8 word))")
  show "wf ((\<lambda>(p :: native128, s). nat \<bar>sint p\<bar>) <*mlex*> measure (\<lambda>(p, s). unat (s :: 8 word)))"
    by (simp add: wf_mlex)
next
  fix productMantissa :: native128 and newScale :: "8 word"
  assume "max96bit <s productMantissa \<or> DECIMAL_MAXIMUM_PLACES < newScale"
  then show "((sdiv128 productMantissa ten, newScale - 1), (productMantissa, newScale))
           \<in> (\<lambda>(p, s). nat \<bar>sint p\<bar>) <*mlex*> measure (\<lambda>(p, s). unat (s :: 8 word))"
    by (rule reduce_product_measure)
qed

declare reduce_product.simps [simp del]

definition decimal_mul :: "Decimal \<Rightarrow> Decimal \<Rightarrow> Decimal" where
  "decimal_mul this other =
     (if isZero this \<or> isZero other then Decimal_zero
      else
        (let left = mantissaAsInt128 this;
             right = mantissaAsInt128 other;
             (productMantissa, newScale) =
               reduce_product (native_mul left right, scale this + scale other);
             result0 = setMantissa Decimal_zero productMantissa;
             result1 = result0\<lparr>flags := push_bit DECIMAL_SCALE_SHIFT (ucast newScale)\<rparr>;
             result2 = (if isNegative this \<noteq> isNegative other
                        then set_sign result1 else result1)
         in normalize_decimal result2))"

text \<open>
  \<^verbatim>\<open>operator/\<close>. Both scaling loops stop early when the high word of the dividend
  passes the overflow threshold; \<open>scale_up n\<close> is a loop of at most \<open>n\<close> rounds.
  \<^verbatim>\<open>targetScale\<close> is a signed 32-bit integer.
\<close>

fun scale_up :: "nat \<Rightarrow> native128 \<times> 32 word \<Rightarrow> native128 \<times> 32 word" where
  "scale_up 0 (dividend, targetScale) = (dividend, targetScale)"
| "scale_up (Suc n) (dividend, targetScale) =
     (if native_toHigh dividend > INT128_MUL10_OVERFLOW_THRESHOLD
      then (dividend, targetScale)
      else scale_up n (native_mul dividend ten, targetScale + 1))"

definition decimal_div :: "Decimal \<Rightarrow> Decimal \<Rightarrow> error + Decimal" where
  "decimal_div this other =
     (if isZero other then Inl DivisionByZero
      else if isZero this then Inr Decimal_zero
      else
        (let dividend0 = mantissaAsInt128 this;
             divisor = mantissaAsInt128 other;
             targetScale0 = (ucast (scale this) :: 32 word) - ucast (scale other);
             (dividend1, targetScale1) =
               scale_up (unat DECIMAL_DIVISION_EXTRA_PRECISION) (dividend0, targetScale0);
             (dividend2, targetScale2) =
               (if targetScale1 <s 0
                then (let scaleUp = (ucast (- targetScale1) :: 8 word)
                      in scale_up (min (unat scaleUp) (unat DECIMAL_MAXIMUM_PLACES))
                           (dividend1, targetScale1))
                else (dividend1, targetScale1))
         in case native_div dividend2 divisor of
              Inl e \<Rightarrow> Inl e
            | Inr q \<Rightarrow>
                (let result0 = setMantissa Decimal_zero q;
                     result1 = result0\<lparr>flags := push_bit DECIMAL_SCALE_SHIFT targetScale2\<rparr>;
                     result2 = (if isNegative this \<noteq> isNegative other
                                then set_sign result1 else result1)
                 in Inr (normalize_decimal result2))))"

definition decimal_div_assign :: "Decimal \<Rightarrow> Decimal \<Rightarrow> error option \<times> Decimal" where
  "decimal_div_assign this other =
     (case decimal_div this other of
        Inl e \<Rightarrow> (Some e, this)
      | Inr q \<Rightarrow> (None, q))"

section \<open>Decimal: comparison\<close>

definition decimal_eq :: "Decimal \<Rightarrow> Decimal \<Rightarrow> bool" where
  "decimal_eq this other =
     (if isZero this \<and> isZero other then True
      else if isNegative this \<noteq> isNegative other then False
      else (let (left, right) = alignScale this other in left = right))"

section \<open>Decimal: parsing\<close>

text \<open>
  \<^verbatim>\<open>tryParse\<close> walks the characters from \<^verbatim>\<open>pos\<close> twice. The first walk finds the
  decimal point and gives up at a second one (\<open>None\<close>); \<^verbatim>\<open>npos\<close> is \<open>None\<close> in
  \<open>decimalPos\<close>.
\<close>

fun find_decimal_point :: "string \<Rightarrow> nat \<Rightarrow> nat option \<times> nat \<Rightarrow> (nat option) option" where
  "find_decimal_point [] i (decimalPos, decimalCount) = Some decimalPos"
| "find_decimal_point (c # cs) i (decimalPos, decimalCount) =
     (if c = CHR ''.''
      then (if Suc decimalCount > 1 then None
            else find_decimal_point cs (Suc i) (Some i, Suc decimalCount))
      else find_decimal_point cs (Suc i) (decimalPos, decimalCount))"

record accumulator =
  mantissaValue :: native128
  hasDigits :: bool
  significantDigits :: "8 word"
  decimalDigitsProcessed :: "8 word"
  currentScale :: "8 word"

definition after_point :: "nat option \<Rightarrow> nat \<Rightarrow> bool" where
  "after_point decimalPos i = (case decimalPos of None \<Rightarrow> False | Some p \<Rightarrow> p < i)"

text \<open>
  The second walk accumulates the digits. \<open>None\<close> is the early \<^verbatim>\<open>return false\<close> at
  a character that is no digit; at the \<^verbatim>\<open>break\<close> the state is returned as it stands.
  A digit counts as significant unless it is a zero before the point with nothing
  accumulated yet.
\<close>

fun accumulate_digits :: "string \<Rightarrow> nat \<Rightarrow> nat option \<Rightarrow> accumulator \<Rightarrow> accumulator option" where
  "accumulate_digits [] i decimalPos st = Some st"
| "accumulate_digits (c # cs) i decimalPos st =
     (if c = CHR ''.'' then accumulate_digits cs (Suc i) decimalPos st
      else if (of_char c :: nat) < of_char CHR ''0'' \<or> (of_char c :: nat) > of_char CHR ''9''
      then None
      else
        (let st1 = st\<lparr>hasDigits := True\<rparr>;
             digit = (of_nat (of_char c - of_char CHR ''0'') :: 64 word)
         in if significantDigits st1 \<ge> DECIMAL_MAXIMUM_PLACES
            then Some (if decimalPos = None then st1
                       else st1\<lparr>currentScale := decimalDigitsProcessed st1\<rparr>)
            else
              (let st2 = (if digit = 0 \<and> mantissaValue st1 = native_of_int64 0
                               \<and> \<not> after_point decimalPos i
                          then st1
                          else st1\<lparr>significantDigits := significantDigits st1 + 1\<rparr>);
                   st3 = (if after_point decimalPos i
                          then st2\<lparr>decimalDigitsProcessed := decimalDigitsProcessed st2 + 1\<rparr>
                          else st2)
               in accumulate_digits cs (Suc i) decimalPos
                    (st3\<lparr>mantissaValue :=
                            native_add (native_mul (mantissaValue st3) ten)
                              (native_of_uint64 digit)\<rparr>))))"

text \<open>
  The two loops that shrink a mantissa whose high half exceeds 32 bits: first while a
  scale is left, then on the integer part.
\<close>

function shrink_with_scale :: "native128 \<times> 8 word \<Rightarrow> native128 \<times> 8 word" where
  "shrink_with_scale (m, s) =
     (if native_toHigh m > UINT32_MAX_VALUE \<and> 0 < s
      then shrink_with_scale (sdiv128 m ten, s - 1)
      else (m, s))"
  by pat_completeness auto
termination
  by (relation "measure (\<lambda>(m, s). unat s)") (auto simp add: scale_pred_less)

declare shrink_with_scale.simps [simp del]

function shrink_integer :: "native128 \<Rightarrow> native128" where
  "shrink_integer m =
     (if native_toHigh m > UINT32_MAX_VALUE then shrink_integer (sdiv128 m ten) else m)"
  by pat_completeness auto
termination
proof (relation "measure (\<lambda>m. nat \<bar>sint m\<bar>)")
  show "wf (measure (\<lambda>m :: native128. nat \<bar>sint m\<bar>))" by simp
next
  fix m :: native128
  assume "UINT32_MAX_VALUE < native_toHigh m"
  then show "(sdiv128 m ten, m) \<in> measure (\<lambda>m. nat \<bar>sint m\<bar>)"
    unfolding in_measure by (rule shrink_measure)
qed

declare shrink_integer.simps [simp del]

text \<open>
  \<^verbatim>\<open>tryParse\<close> resets \<^verbatim>\<open>result\<close> to zero before anything else; the model returns
  the flag together with the value \<^verbatim>\<open>result\<close> holds at the return.
\<close>

definition tryParse :: "string \<Rightarrow> bool \<times> Decimal" where
  "tryParse str =
     (if str = [] then (False, Decimal_zero)
      else
        (let negative = (hd str = CHR ''-'');
             pos = (if hd str = CHR ''-'' \<or> hd str = CHR ''+'' then 1 else 0)
         in if pos \<ge> length str then (False, Decimal_zero)
            else
              (case find_decimal_point (drop pos str) pos (None, 0) of
                 None \<Rightarrow> (False, Decimal_zero)
               | Some decimalPos \<Rightarrow>
                   (let scale0 =
                          (case decimalPos of
                             None \<Rightarrow> 0
                           | Some p \<Rightarrow>
                               (let s = (of_nat (length str - p - 1) :: 8 word)
                                in if s > DECIMAL_MAXIMUM_PLACES
                                   then DECIMAL_MAXIMUM_PLACES else s))
                    in case accumulate_digits (drop pos str) pos decimalPos
                              \<lparr>mantissaValue = native_of_int64 0, hasDigits = False,
                               significantDigits = 0, decimalDigitsProcessed = 0,
                               currentScale = scale0\<rparr> of
                         None \<Rightarrow> (False, Decimal_zero)
                       | Some st \<Rightarrow>
                           if \<not> hasDigits st then (False, Decimal_zero)
                           else
                             (let (m, s) =
                                    (if native_toHigh (mantissaValue st) > UINT32_MAX_VALUE
                                     then (let (m1, s1) = shrink_with_scale
                                                            (mantissaValue st, currentScale st)
                                           in (shrink_integer m1, s1))
                                     else (mantissaValue st, currentScale st));
                                  result0 = (if negative then set_sign Decimal_zero
                                             else Decimal_zero);
                                  result1 = result0\<lparr>flags := flags result0
                                              OR push_bit DECIMAL_SCALE_SHIFT (ucast s)\<rparr>;
                                  low = native_toLow m;
                                  high = native_toHigh m;
                                  result2 = result1\<lparr>mantissa0 := ucast low,
                                              mantissa1 := ucast (drop_bit BITS_PER_UINT32 low),
                                              mantissa2 := ucast high\<rparr>
                              in (True, normalize_decimal result2))))))"

definition parse :: "string \<Rightarrow> error + Decimal" where
  "parse str = (case tryParse str of (ok, result) \<Rightarrow>
                  if ok then Inr result else Inl InvalidFormat)"

section \<open>Decimal: formatting\<close>

text \<open>
  \<^verbatim>\<open>toString\<close> on the native path. The digits are extracted least significant first
  into a buffer of 64 characters; \<open>digits\<close> is the filled part of the buffer and its
  length is \<^verbatim>\<open>digitCount\<close>. The copying loops read the buffer backwards.
\<close>

definition UINT64_MAX :: "64 word" where "UINT64_MAX = 0xFFFFFFFFFFFFFFFF"

function digits_of_uint64 :: "64 word \<Rightarrow> string \<Rightarrow> string" where
  "digits_of_uint64 val digits =
     (if 0 < val \<and> length digits < DECIMAL_MAX_STRING_LENGTH
      then digits_of_uint64 (val div DECIMAL_BASE)
             (digits @ [char_of (of_char CHR ''0'' + unat (val mod DECIMAL_BASE))])
      else digits)"
  by pat_completeness auto
termination
  by (relation "measure (\<lambda>(val, digits). DECIMAL_MAX_STRING_LENGTH - length digits)") auto

declare digits_of_uint64.simps [simp del]

function digits_of_native :: "native128 \<Rightarrow> string \<Rightarrow> string" where
  "digits_of_native mantissa digits =
     (if \<not> native_isZero mantissa \<and> length digits < DECIMAL_MAX_STRING_LENGTH
      then digits_of_native (sdiv128 mantissa ten)
             (digits @ [char_of (of_char CHR ''0'' + sint (smod128 mantissa ten))])
      else digits)"
  by pat_completeness auto
termination
  by (relation "measure (\<lambda>(mantissa, digits). DECIMAL_MAX_STRING_LENGTH - length digits)") auto

declare digits_of_native.simps [simp del]

definition toString :: "Decimal \<Rightarrow> string" where
  "toString this =
     (if isZero this then ''0''
      else
        (let mantissa = native_abs (mantissaAsInt128 this);
             currentScale = unat (scale this);
             extracted = (if mantissa \<le>s native_of_uint64 UINT64_MAX
                          then digits_of_uint64 (ucast mantissa) []
                          else digits_of_native mantissa []);
             digits = (if extracted = [] then ''0'' else extracted);
             digitCount = length digits;
             sign = (if isNegative this then ''-'' else [])
         in if 0 < currentScale
            then (if currentScale \<ge> digitCount
                  then sign @ ''0.'' @ replicate (currentScale - digitCount) CHR ''0''
                         @ rev digits
                  else sign @ rev (drop currentScale digits) @ ''.''
                         @ rev (take currentScale digits))
            else sign @ rev digits))"

section \<open>Decimal: rounding\<close>

datatype RoundingMode =
  ToNearest | ToNearestTiesAway | ToZero | ToPositiveInfinity | ToNegativeInfinity

text \<open>
  \<^verbatim>\<open>round\<close> and its helpers are \<^verbatim>\<open>noexcept\<close>, but they divide by a power of ten
  computed in a loop, which is zero modulo \<open>2^128\<close> from the 128th power on. The
  exception \<^verbatim>\<open>operator/\<close> throws then is kept as \<open>Inl\<close>.
\<close>

definition shouldRoundUpToNearest ::
    "native128 \<Rightarrow> native128 \<Rightarrow> native128 \<Rightarrow> 8 word \<Rightarrow> Decimal \<Rightarrow> error + bool" where
  "shouldRoundUpToNearest roundingDigit mantissa divisor digitsToRemove result =
     (if native_toLow roundingDigit > ucast DECIMAL_ROUNDING_THRESHOLD then Inr True
      else if native_toLow roundingDigit = ucast DECIMAL_ROUNDING_THRESHOLD
      then
        (case (if digitsToRemove > 1
               then (case native_mod mantissa divisor of
                       Inl e \<Rightarrow> Inl e
                     | Inr remainder \<Rightarrow>
                         Inr (remainder \<noteq> native_mul roundingDigit (sdiv128 divisor ten)))
               else Inr False) of
           Inl e \<Rightarrow> Inl e
         | Inr hasRemainingFraction \<Rightarrow>
             if hasRemainingFraction then Inr True
             else
               (let resultMantissa = mantissaAsInt128 result;
                    isEven = (smod128 resultMantissa (native_of_int64 2) = native_of_int64 0)
                in Inr (\<not> isEven)))
      else Inr False)"

definition shouldRoundUpToNearestTiesAway :: "native128 \<Rightarrow> bool" where
  "shouldRoundUpToNearestTiesAway roundingDigit =
     (native_toLow roundingDigit \<ge> ucast DECIMAL_ROUNDING_THRESHOLD)"

definition fraction_is_nonzero :: "native128 \<Rightarrow> 8 word \<Rightarrow> error + bool" where
  "fraction_is_nonzero mantissa digitsToRemove =
     (if 0 < digitsToRemove
      then (case native_mod mantissa (getPowerOf10 digitsToRemove) of
              Inl e \<Rightarrow> Inl e
            | Inr fractionalPart \<Rightarrow> Inr (\<not> native_isZero fractionalPart))
      else Inr False)"

definition shouldRoundUpToPositiveInfinity :: "native128 \<Rightarrow> 8 word \<Rightarrow> bool \<Rightarrow> error + bool" where
  "shouldRoundUpToPositiveInfinity mantissa digitsToRemove negative =
     (if negative then Inr False else fraction_is_nonzero mantissa digitsToRemove)"

definition shouldRoundUpToNegativeInfinity :: "native128 \<Rightarrow> 8 word \<Rightarrow> bool \<Rightarrow> error + bool" where
  "shouldRoundUpToNegativeInfinity mantissa digitsToRemove negative =
     (if \<not> negative then Inr False else fraction_is_nonzero mantissa digitsToRemove)"

fun truncate_loop :: "nat \<Rightarrow> Decimal \<Rightarrow> Decimal" where
  "truncate_loop 0 result = result"
| "truncate_loop (Suc n) result = truncate_loop n (divideByPowerOf10 result 1)"

definition decimal_round :: "Decimal \<Rightarrow> 32 word \<Rightarrow> RoundingMode \<Rightarrow> error + Decimal" where
  "decimal_round this places mode =
     (let decimalsPlacesCount = (if places <s 0 then 0 else places)
      in if ucast (scale this) \<le>s decimalsPlacesCount \<or> isZero this then Inr this
         else
           (let currentScale = scale this;
                targetScale = (ucast decimalsPlacesCount :: 8 word);
                digitsToRemove = currentScale - targetScale;
                mantissa = mantissaAsInt128 this;
                divisor = (if digitsToRemove > 1
                           then times_ten_loop (unat (digitsToRemove - 1)) (native_of_int64 1)
                           else native_of_int64 1)
            in case native_div mantissa divisor of
                 Inl e \<Rightarrow> Inl e
               | Inr q \<Rightarrow>
                   (let roundingDigit = smod128 q ten;
                        result = set_scale (truncate_loop (unat digitsToRemove) this)
                                   (ucast targetScale)
                    in case (case mode of
                               ToNearest \<Rightarrow>
                                 shouldRoundUpToNearest roundingDigit mantissa divisor
                                   digitsToRemove result
                             | ToNearestTiesAway \<Rightarrow>
                                 Inr (shouldRoundUpToNearestTiesAway roundingDigit)
                             | ToZero \<Rightarrow> Inr False
                             | ToPositiveInfinity \<Rightarrow>
                                 shouldRoundUpToPositiveInfinity mantissa digitsToRemove
                                   (isNegative this)
                             | ToNegativeInfinity \<Rightarrow>
                                 shouldRoundUpToNegativeInfinity mantissa digitsToRemove
                                   (isNegative this)) of
                         Inl e \<Rightarrow> Inl e
                       | Inr shouldRoundUp \<Rightarrow>
                           if shouldRoundUp
                           then Inr (setMantissa result
                                       (native_add (mantissaAsInt128 result) (native_of_int64 1)))
                           else Inr result)))"

section \<open>Int128 from a float\<close>

text \<open>
  A \<^verbatim>\<open>float\<close> is not a number, an infinity with its sign, or a finite value
  \<open>\<plusminus> m \<sqdot> 2^e\<close> kept exactly as sign, significand and exponent. The constructor
  widens it to \<^verbatim>\<open>double\<close> and takes \<^verbatim>\<open>std::trunc\<close>, both exact, so \<open>truncated\<close>
  is an integer. The bounds it is compared with are \<^verbatim>\<open>INT64_MAX\<close> and
  \<^verbatim>\<open>INT64_MIN\<close> converted to \<^verbatim>\<open>double\<close>, that is \<open>2^63\<close> and \<open>- 2^63\<close>. The final
  cast to \<^verbatim>\<open>int64_t\<close> is in range except at \<open>2^63\<close> itself, where the model wraps.
\<close>

datatype floating = NaN | Infinity bool | Finite bool nat int

definition INT64_MAX :: "64 word" where "INT64_MAX = 0x7FFFFFFFFFFFFFFF"
definition INT64_MIN :: "64 word" where "INT64_MIN = 0x8000000000000000"
definition INT64_MAX_as_double :: int where "INT64_MAX_as_double = 2 ^ 63"
definition INT64_MIN_as_double :: int where "INT64_MIN_as_double = - (2 ^ 63)"

definition trunc :: "bool \<Rightarrow> nat \<Rightarrow> int \<Rightarrow> int" where
  "trunc negative m e =
     (let magnitude = (if 0 \<le> e then int m * 2 ^ nat e else int m div 2 ^ nat (- e))
      in if negative then - magnitude else magnitude)"

definition Int128_of_float :: "floating \<Rightarrow> native128" where
  "Int128_of_float val =
     (case val of
        NaN \<Rightarrow> native_of_int64 0
      | Infinity negative \<Rightarrow> native_of_int64 0
      | Finite negative m e \<Rightarrow>
          (let truncated = trunc negative m e
           in if truncated > INT64_MAX_as_double \<or> truncated < INT64_MIN_as_double
              then (if truncated > 0 then native_of_int64 INT64_MAX
                    else native_of_int64 INT64_MIN)
              else native_of_int64 (word_of_int truncated)))"

section \<open>Properties of the model\<close>

subsection \<open>Scale and normal form\<close>

lemma scale_set_sign: "scale (set_sign d) = scale d"
  by (simp add: scale_def set_sign_def word_ao_dist DECIMAL_SIGN_MASK_def DECIMAL_SCALE_MASK_def)

lemma scale_flags_only:
  "scale (d\<lparr>flags := push_bit DECIMAL_SCALE_SHIFT (ucast (s :: 8 word))\<rparr>) = s"
  using scale_set_scale [of "d\<lparr>flags := 0\<rparr>" s] by (simp add: set_scale_def)

lemma word_pred_le: "s \<noteq> 0 \<Longrightarrow> s - 1 \<le> (s :: 8 word)"
  by (simp add: word_le_nat_alt unat_minus_one)

text \<open>\<^verbatim>\<open>normalize\<close> never raises the scale, and what it returns is in normal form.\<close>

lemma scale_normalize_le: "scale (normalize_decimal d) \<le> scale d"
proof (induction d rule: normalize_decimal.induct)
  case (1 decimal)
  show ?case
  proof (cases "0 < scale decimal \<and> smod128 (mantissaAsInt128 decimal) ten = native_of_int64 0")
    case True
    then have nz: "scale decimal \<noteq> 0" by auto
    have "scale (normalize_decimal (normalize_step decimal)) \<le> scale (normalize_step decimal)"
      using "1.IH" [OF True] .
    also have "\<dots> = scale decimal - 1" using nz by (rule scale_normalize_step)
    also have "\<dots> \<le> scale decimal" using nz by (rule word_pred_le)
    finally have "scale (normalize_decimal (normalize_step decimal)) \<le> scale decimal" .
    moreover have "normalize_decimal decimal = normalize_decimal (normalize_step decimal)"
      by (subst normalize_decimal.simps) (simp only: True if_True simp_thms)
    ultimately show ?thesis by simp
  next
    case False
    have "normalize_decimal decimal = decimal"
      by (subst normalize_decimal.simps) (simp only: False if_False)
    then show ?thesis by simp
  qed
qed

lemma normalize_normalized:
  "scale (normalize_decimal d) = 0
   \<or> smod128 (mantissaAsInt128 (normalize_decimal d)) ten \<noteq> native_of_int64 0"
proof (induction d rule: normalize_decimal.induct)
  case (1 decimal)
  show ?case
  proof (cases "0 < scale decimal \<and> smod128 (mantissaAsInt128 decimal) ten = native_of_int64 0")
    case True
    have "normalize_decimal decimal = normalize_decimal (normalize_step decimal)"
      by (subst normalize_decimal.simps) (simp only: True if_True simp_thms)
    with "1.IH" [OF True] show ?thesis by simp
  next
    case False
    have "normalize_decimal decimal = decimal"
      by (subst normalize_decimal.simps) (simp only: False if_False)
    with False show ?thesis by (auto simp add: word_greater_zero_iff)
  qed
qed

text \<open>
  The loop of \<^verbatim>\<open>operator*\<close> leaves a scale of at most 28, so every product has one:
  this is the step \<^verbatim>\<open>operator/\<close> lacks.
\<close>

lemma reduce_product_scale: "snd (reduce_product (p, s)) \<le> DECIMAL_MAXIMUM_PLACES"
proof (induction "(p, s)" arbitrary: p s rule: reduce_product.induct)
  case (1 p s)
  show ?case
  proof (cases "max96bit <s p \<or> DECIMAL_MAXIMUM_PLACES < s")
    case outer: True
    show ?thesis
    proof (cases "s - 1 = 0 \<and> max96bit <s sdiv128 p ten")
      case True
      have "reduce_product (p, s) = (sdiv128 p ten, s - 1)"
        by (subst reduce_product.simps) (simp only: outer True if_True simp_thms)
      with True show ?thesis by (simp add: DECIMAL_MAXIMUM_PLACES_def)
    next
      case False
      have "reduce_product (p, s) = reduce_product (sdiv128 p ten, s - 1)"
        by (subst reduce_product.simps) (simp only: outer False if_True if_False)
      with "1.hyps" [OF outer False] show ?thesis by simp
    qed
  next
    case False
    have "reduce_product (p, s) = (p, s)"
      by (subst reduce_product.simps) (simp only: False if_False)
    with False show ?thesis by (simp add: not_less)
  qed
qed

lemma decimal_mul_scale: "scale (decimal_mul a b) \<le> DECIMAL_MAXIMUM_PLACES"
proof (cases "isZero a \<or> isZero b")
  case True
  then show ?thesis
    by (simp add: decimal_mul_def scale_def Decimal_zero_def)
next
  case False
  obtain p s where r:
    "reduce_product (native_mul (mantissaAsInt128 a) (mantissaAsInt128 b), scale a + scale b)
       = (p, s)"
    by (cases "reduce_product (native_mul (mantissaAsInt128 a) (mantissaAsInt128 b),
                 scale a + scale b)")
  have s: "s \<le> DECIMAL_MAXIMUM_PLACES"
    using reduce_product_scale
      [of "native_mul (mantissaAsInt128 a) (mantissaAsInt128 b)" "scale a + scale b"] r
    by simp
  have "scale (decimal_mul a b) \<le> s"
    using False r
    by (auto simp add: decimal_mul_def Let_def scale_set_sign scale_flags_only
        intro: order_trans [OF scale_normalize_le])
  then show ?thesis using s by (rule order_trans)
qed

subsection \<open>The native remainder\<close>

text \<open>
  On the native path \<^verbatim>\<open>%\<close> is the remainder of the truncating division: it satisfies
  \<open>a % b = a - (a / b) * b\<close>, is smaller in magnitude than the divisor and has the
  sign of the dividend.
\<close>

lemma abs_mod_abs_nonneg: "0 \<le> \<bar>k\<bar> mod \<bar>l :: int\<bar>"
  by (cases "l = 0") simp_all

lemma sint_smod_bounds:
  fixes k l :: int
  assumes "- (2 ^ 127) \<le> k" "k < 2 ^ 127"
  shows "- (2 ^ 127) \<le> k smod l \<and> k smod l < 2 ^ 127"
proof -
  have "\<bar>k smod l\<bar> \<le> \<bar>k\<bar>"
    by (cases "l = 0")
      (simp_all add: signed_modulo_int_def abs_mult abs_sgn_eq zmod_le_nonneg_dividend)
  moreover have "k = - (2 ^ 127) \<Longrightarrow> k smod l \<le> 0"
    using abs_mod_abs_nonneg [of k l] by (simp add: signed_modulo_int_def sgn_if)
  ultimately show ?thesis using assms by (cases "k = - (2 ^ 127)") (simp, linarith)+
qed

lemma sint_smod128: "sint (smod128 a b) = sint a smod sint b"
proof -
  have "- (2 ^ 127) \<le> sint a" "sint a < 2 ^ 127"
    using sint_ge [of a] sint_lt [of a] by simp_all
  then have "- (2 ^ 127) \<le> sint a smod sint b \<and> sint a smod sint b < 2 ^ 127"
    by (rule sint_smod_bounds)
  then have "signed_take_bit (128 - 1) (sint a smod sint b) = sint a smod sint b"
    by (intro signed_take_bit_int_eq_self) simp_all
  then show ?thesis unfolding smod128_def by (simp add: sint_sbintrunc')
qed

lemma native_mod_identity: "smod128 a b = native_sub a (native_mul (sdiv128 a b) b)"
proof -
  have "sint a = sint a sdiv sint b * sint b + sint a smod sint b"
    by (simp add: sdiv_mult_smod_eq)
  then have "(word_of_int (sint a) :: native128)
      = word_of_int (sint a sdiv sint b) * word_of_int (sint b) + word_of_int (sint a smod sint b)"
    by (metis of_int_add of_int_mult)
  then have "a = sdiv128 a b * b + smod128 a b"
    by (simp add: smod128_def sdiv128_def)
  then have "smod128 a b = a - sdiv128 a b * b"
    by (metis add_diff_cancel_left')
  then show ?thesis by (simp add: native_sub_def native_mul_def)
qed

lemma native_mod_sign_and_magnitude:
  assumes "b \<noteq> 0"
  shows "\<bar>sint (smod128 a b)\<bar> < \<bar>sint b\<bar>"
    and "0 \<le> sint a \<Longrightarrow> 0 \<le> sint (smod128 a b)"
    and "sint a \<le> 0 \<Longrightarrow> sint (smod128 a b) \<le> 0"
proof -
  have nz: "sint b \<noteq> 0" using assms by (simp add: signed_eq_0_iff)
  then have "\<bar>sint a\<bar> mod \<bar>sint b\<bar> < \<bar>sint b\<bar>" by simp
  moreover have nonneg: "0 \<le> \<bar>sint a\<bar> mod \<bar>sint b\<bar>" by (rule abs_mod_abs_nonneg)
  ultimately show "\<bar>sint (smod128 a b)\<bar> < \<bar>sint b\<bar>"
    using nz by (simp add: sint_smod128 signed_modulo_int_def abs_mult abs_sgn_eq)
  show "0 \<le> sint a \<Longrightarrow> 0 \<le> sint (smod128 a b)"
    using nonneg by (simp add: sint_smod128 signed_modulo_int_def sgn_if)
  show "sint a \<le> 0 \<Longrightarrow> sint (smod128 a b) \<le> 0"
    using nonneg by (simp add: sint_smod128 signed_modulo_int_def sgn_if)
qed

subsection \<open>The emulated multiplication is exact\<close>

text \<open>
  The four partial products of the 32-bit halves, with the carry out of the middle
  column, are the 128-bit product of the low words.
\<close>

lemma schoolbook_split:
  fixes N al ah bl bh :: nat
  shows "(ah * N + al) * (bh * N + bl)
           = (ah * bh + (al * bh) div N + (ah * bl) div N
                + ((al * bl) div N + (al * bh) mod N + (ah * bl) mod N) div N) * (N * N)
               + ((((al * bl) div N + (al * bh) mod N + (ah * bl) mod N) mod N) * N
                    + (al * bl) mod N)"
proof -
  define q0 r0 where "q0 = (al * bl) div N" and "r0 = (al * bl) mod N"
  define q1 r1 where "q1 = (al * bh) div N" and "r1 = (al * bh) mod N"
  define q2 r2 where "q2 = (ah * bl) div N" and "r2 = (ah * bl) mod N"
  define c u where "c = (q0 + r1 + r2) div N" and "u = (q0 + r1 + r2) mod N"
  have e0: "al * bl = q0 * N + r0" by (simp add: q0_def r0_def)
  have e1: "al * bh = q1 * N + r1" by (simp add: q1_def r1_def)
  have e2: "ah * bl = q2 * N + r2" by (simp add: q2_def r2_def)
  have et: "q0 + r1 + r2 = c * N + u" by (simp add: c_def u_def)
  have "(ah * N + al) * (bh * N + bl)
          = ah * bh * (N * N) + (al * bh) * N + (ah * bl) * N + al * bl"
    by (simp add: algebra_simps)
  also have "\<dots> = ah * bh * (N * N) + (q1 * N + r1) * N + (q2 * N + r2) * N + (q0 * N + r0)"
    by (simp only: e0 e1 e2)
  also have "\<dots> = (ah * bh + q1 + q2) * (N * N) + (q0 + r1 + r2) * N + r0"
    by (simp add: algebra_simps)
  also have "\<dots> = (ah * bh + q1 + q2) * (N * N) + (c * N + u) * N + r0"
    by (simp only: et)
  also have "\<dots> = (ah * bh + q1 + q2 + c) * (N * N) + (u * N + r0)"
    by (simp add: algebra_simps)
  finally show ?thesis
    by (simp only: q0_def r0_def q1_def r1_def q2_def r2_def c_def u_def)
qed

lemma hi_lo_mod:
  fixes h l M :: nat
  assumes "l < M"
  shows "(h * M + l) mod (M * M) = (h mod M) * M + l"
proof -
  have lt: "(h mod M) * M + l < M * M"
  proof -
    have "0 < M" using assms by simp
    then have "h mod M < M" by simp
    then have "h mod M + 1 \<le> M" by simp
    then have "(h mod M + 1) * M \<le> M * M" by (rule mult_le_mono1)
    then show ?thesis using assms by (simp add: algebra_simps)
  qed
  define q r where "q = h div M" and "r = h mod M"
  have hq: "h = q * M + r" by (simp add: q_def r_def)
  have "(q * M + r) * M + l = q * (M * M) + (r * M + l)"
    by (simp add: algebra_simps)
  then have "h * M + l = (h div M) * (M * M) + ((h mod M) * M + l)"
    unfolding hq [symmetric] by (simp only: q_def r_def)
  then have "(h * M + l) mod (M * M) = ((h mod M) * M + l) mod (M * M)"
    by (simp only: mod_mult_self3)
  with lt show ?thesis by simp
qed

definition layout_value :: "Layout \<Rightarrow> nat" where
  "layout_value x = unat (upper64bits x) * 2 ^ 64 + unat (lower64bits x)"

lemma unat_ucast_64_128: "unat (ucast (w :: 64 word) :: 128 word) = unat w"
proof -
  have "unat w < 2 ^ 64" using unsigned_less [of w, where ?'a = nat] by simp
  then have "unat w < 2 ^ 128" by simp
  then show ?thesis by (simp add: unsigned_ucast_eq take_bit_nat_eq_self_iff)
qed

lemma unat_to_native: "unat (to_native x) = layout_value x"
proof -
  have lo: "unat (lower64bits x) < 2 ^ 64" and hi: "unat (upper64bits x) < 2 ^ 64"
    using unsigned_less [of "lower64bits x", where ?'a = nat]
      unsigned_less [of "upper64bits x", where ?'a = nat] by simp_all
  have "to_native x = push_bit 64 (ucast (upper64bits x)) + ucast (lower64bits x)"
    unfolding to_native_def native_of_words_def BITS_PER_UINT64_def
    by (rule disjunctive_add [symmetric]) (auto simp add: bit_simps dest: bit_imp_le_length)
  then have "unat (to_native x)
               = (unat (upper64bits x) * 2 ^ 64 + unat (lower64bits x)) mod 2 ^ 128"
    by (simp add: unat_word_ariths push_bit_eq_mult unat_ucast_64_128 mod_simps)
  also have "\<dots> = unat (upper64bits x) * 2 ^ 64 + unat (lower64bits x)"
    using lo hi by (intro mod_less) simp
  finally show ?thesis by (simp add: layout_value_def)
qed

lemma unat_and_UINT32_MAX_VALUE:
  "unat ((w :: 64 word) AND UINT32_MAX_VALUE) = unat w mod 2 ^ 32"
proof -
  have "UINT32_MAX_VALUE = mask 32"
    by (simp add: UINT32_MAX_VALUE_def mask_eq_exp_minus_1)
  then have "w AND UINT32_MAX_VALUE = take_bit 32 w"
    by (simp add: take_bit_eq_mask)
  then show ?thesis
    by (simp add: unsigned_take_bit_eq take_bit_eq_mod unat_mod)
qed

lemma unat_drop_bit_32: "unat (drop_bit 32 (w :: 64 word)) = unat w div 2 ^ 32"
  by (simp add: unat_drop_bit_eq drop_bit_eq_div unat_div)

lemma unat_push_bit_32: "unat (push_bit 32 (w :: 64 word)) = (unat w * 2 ^ 32) mod 2 ^ 64"
  by (simp add: push_bit_eq_mult unat_word_ariths)

lemma half_product_bound:
  fixes x y :: nat
  assumes "x < 2 ^ 32" "y < 2 ^ 32"
  shows "x * y < 2 ^ 64"
proof -
  have "x * y < 2 ^ 32 * 2 ^ 32" using assms by (rule mult_strict_mono') simp_all
  then show ?thesis by simp
qed

lemma layout_value_emulated_mul:
  "layout_value (emulated_mul a b) = (layout_value a * layout_value b) mod 2 ^ 128"
proof -
  define A A' B B' where "A = unat (lower64bits a)" and "A' = unat (upper64bits a)"
    and "B = unat (lower64bits b)" and "B' = unat (upper64bits b)"
  define N :: nat where "N = 2 ^ 32"
  define al ah bl bh where "al = A mod N" and "ah = A div N" and "bl = B mod N" and "bh = B div N"
  define t where "t = (al * bl) div N + (al * bh) mod N + (ah * bl) mod N"
  have NN: "N * N = 2 ^ 64" by (simp add: N_def)
  have Npos: "0 < N" by (simp add: N_def)
  have Alt: "A < N * N" and Blt: "B < N * N"
    using unsigned_less [of "lower64bits a", where ?'a = nat]
      unsigned_less [of "lower64bits b", where ?'a = nat]
    by (simp_all add: A_def B_def NN)
  have lt: "al < N" "bl < N" "ah < N" "bh < N"
    using Npos Alt Blt by (simp_all add: al_def bl_def ah_def bh_def less_mult_imp_div_less)
  have Asplit: "A = ah * N + al" and Bsplit: "B = bh * N + bl"
    by (simp_all add: al_def ah_def bl_def bh_def)
  have lt32: "al < 2 ^ 32" "bl < 2 ^ 32" "ah < 2 ^ 32" "bh < 2 ^ 32"
    using lt unfolding N_def by blast+
  have pb: "al * bl < 2 ^ 64" "al * bh < 2 ^ 64" "ah * bl < 2 ^ 64" "ah * bh < 2 ^ 64"
    by (rule half_product_bound [OF lt32(1) lt32(2)], rule half_product_bound [OF lt32(1) lt32(4)],
        rule half_product_bound [OF lt32(3) lt32(2)], rule half_product_bound [OF lt32(3) lt32(4)])
  \<comment> \<open>the words of the source, read as numbers\<close>
  define a_low a_high b_low b_high where
    "a_low = lower64bits a AND UINT32_MAX_VALUE" and "a_high = drop_bit 32 (lower64bits a)"
    and "b_low = lower64bits b AND UINT32_MAX_VALUE" and "b_high = drop_bit 32 (lower64bits b)"
  have halves: "unat a_low = al" "unat a_high = ah" "unat b_low = bl" "unat b_high = bh"
    by (simp_all add: a_low_def a_high_def b_low_def b_high_def unat_and_UINT32_MAX_VALUE
        unat_drop_bit_32 al_def ah_def bl_def bh_def A_def B_def N_def)
  define p0 p1 p2 p3 where "p0 = a_low * b_low" and "p1 = a_low * b_high"
    and "p2 = a_high * b_low" and "p3 = a_high * b_high"
  have p: "unat p0 = al * bl" "unat p1 = al * bh" "unat p2 = ah * bl" "unat p3 = ah * bh"
    using pb by (simp_all add: p0_def p1_def p2_def p3_def unat_word_ariths halves)
  have t_small: "t < 2 ^ 64"
  proof -
    have "(al * bl) div N < N" using lt Npos
      by (simp add: less_mult_imp_div_less mult_strict_mono')
    moreover have "(al * bh) mod N < N" "(ah * bl) mod N < N" using Npos by simp_all
    ultimately have "t < 3 * N" unfolding t_def by linarith
    then show ?thesis by (simp add: N_def)
  qed
  define cw where "cw = drop_bit 32 (drop_bit 32 p0 + (p1 AND UINT32_MAX_VALUE)
                  + (p2 AND UINT32_MAX_VALUE))"
  have carry: "unat cw = t div N"
  proof -
    have "unat (drop_bit 32 p0 + (p1 AND UINT32_MAX_VALUE)
                  + (p2 AND UINT32_MAX_VALUE)) = t mod 2 ^ 64"
      by (simp add: unat_word_ariths unat_drop_bit_32 unat_and_UINT32_MAX_VALUE p t_def N_def
          mod_simps)
    then show ?thesis using t_small by (simp add: cw_def unat_drop_bit_32 N_def)
  qed
  have low: "unat (lower64bits (emulated_mul a b))
               = (al * bl + al * bh * N + ah * bl * N) mod (N * N)"
    unfolding emulated_mul_def Let_def Int128_def BITS_PER_UINT32_def
      a_low_def [symmetric] a_high_def [symmetric] b_low_def [symmetric] b_high_def [symmetric]
      p0_def [symmetric] p1_def [symmetric] p2_def [symmetric] p3_def [symmetric]
    by (simp add: unat_word_ariths unat_push_bit_32 p mod_simps N_def)
  have high: "unat (upper64bits (emulated_mul a b))
               = (ah * bh + (al * bh) div N + (ah * bl) div N + t div N + A' * B + A * B')
                   mod (N * N)"
    unfolding emulated_mul_def Let_def Int128_def BITS_PER_UINT32_def
      a_low_def [symmetric] a_high_def [symmetric] b_low_def [symmetric] b_high_def [symmetric]
      p0_def [symmetric] p1_def [symmetric] p2_def [symmetric] p3_def [symmetric]
      cw_def [symmetric]
    by (simp add: unat_word_ariths unat_drop_bit_32 p carry mod_simps N_def A_def A'_def B_def
        B'_def)
  \<comment> \<open>the arithmetic\<close>
  define H0 L where "H0 = ah * bh + (al * bh) div N + (ah * bl) div N + t div N"
    and "L = (t mod N) * N + (al * bl) mod N"
  have AB: "A * B = H0 * (N * N) + L"
    unfolding Asplit Bsplit H0_def L_def t_def by (rule schoolbook_split)
  have Llt: "L < N * N"
  proof -
    have "t mod N + 1 \<le> N" using Npos by (simp add: Suc_leI)
    then have "(t mod N + 1) * N \<le> N * N" by (rule mult_le_mono1)
    moreover have "(al * bl) mod N < N" using Npos by simp
    ultimately show ?thesis by (simp add: L_def algebra_simps)
  qed
  have lowL: "(al * bl + al * bh * N + ah * bl * N) mod (N * N) = L"
  proof -
    have "al * bl + al * bh * N + ah * bl * N + ah * bh * (N * N) = A * B"
      unfolding Asplit Bsplit by (simp add: algebra_simps)
    then have "(al * bl + al * bh * N + ah * bl * N) mod (N * N) = (A * B) mod (N * N)"
      by (metis mod_mult_self1)
    also have "\<dots> = L" using Llt by (simp add: AB)
    finally show ?thesis .
  qed
  have "layout_value a * layout_value b = (A' * (N * N) + A) * (B' * (N * N) + B)"
    by (simp add: layout_value_def A_def A'_def B_def B'_def NN)
  also have "\<dots> = A' * B' * ((N * N) * (N * N)) + ((A' * B + A * B') * (N * N) + A * B)"
    by (simp add: algebra_simps)
  also have "\<dots> = A' * B' * ((N * N) * (N * N)) + ((H0 + A' * B + A * B') * (N * N) + L)"
    by (simp add: AB algebra_simps)
  finally have "(layout_value a * layout_value b) mod ((N * N) * (N * N))
                  = ((H0 + A' * B + A * B') * (N * N) + L) mod ((N * N) * (N * N))"
    by (simp only: mod_mult_self3)
  also have "\<dots> = ((H0 + A' * B + A * B') mod (N * N)) * (N * N) + L"
    using Llt by (rule hi_lo_mod)
  finally have "(layout_value a * layout_value b) mod 2 ^ 128
                  = ((H0 + A' * B + A * B') mod (N * N)) * 2 ^ 64 + L"
    unfolding N_def by simp
  moreover have "layout_value (emulated_mul a b)
                   = ((H0 + A' * B + A * B') mod (N * N)) * 2 ^ 64 + L"
    by (simp add: layout_value_def low high lowL H0_def)
  ultimately show ?thesis by simp
qed

lemma to_native_emulated_mul:
  "to_native (emulated_mul a b) = native_mul (to_native a) (to_native b)"
  by (simp add: word_unat_eq_iff unat_to_native layout_value_emulated_mul native_mul_def
      unat_word_ariths)

subsection \<open>The emulated fast path\<close>

text \<open>
  When both operands have an empty upper word, the emulated \<^verbatim>\<open>/\<close> and \<^verbatim>\<open>%\<close> are the
  unsigned 64-bit operations and agree with the native path.
\<close>

lemma sint_ucast_64_128: "sint (ucast (w :: 64 word) :: 128 word) = uint w"
proof -
  have "uint w < 2 ^ 64" using uint_bounded [of w] by simp
  moreover have "- (2 ^ 127) \<le> uint w" by (rule order_trans [of _ 0]) simp_all
  ultimately have "- (2 ^ 127) \<le> uint w \<and> uint w < 2 ^ 127" by simp
  then have "signed_take_bit (128 - 1) (uint w) = uint w"
    by (intro signed_take_bit_int_eq_self) simp_all
  then show ?thesis by (simp add: signed_ucast_eq)
qed

lemma to_native_low_only: "upper64bits x = 0 \<Longrightarrow> to_native x = ucast (lower64bits x)"
  by (simp add: to_native_def native_of_words_def)

lemma sdiv_nonneg: "0 \<le> k \<Longrightarrow> 0 \<le> l \<Longrightarrow> k sdiv l = k div (l :: int)"
  by (cases "k = 0"; cases "l = 0") (simp_all add: signed_divide_int_def sgn_if)

lemma smod_nonneg: "0 \<le> k \<Longrightarrow> 0 \<le> l \<Longrightarrow> k smod l = k mod (l :: int)"
  by (cases "k = 0"; cases "l = 0") (simp_all add: signed_modulo_int_def sgn_if)

lemma sdiv128_ucast: "sdiv128 (ucast (x :: 64 word)) (ucast (y :: 64 word)) = ucast (x div y)"
  by (simp add: sdiv128_def sint_ucast_64_128 sdiv_nonneg uint_div_distrib [symmetric])

lemma smod128_ucast: "smod128 (ucast (x :: 64 word)) (ucast (y :: 64 word)) = ucast (x mod y)"
  by (simp add: smod128_def sint_ucast_64_128 smod_nonneg uint_mod_distrib [symmetric])

lemma ucast_64_128_eq_0: "(ucast (w :: 64 word) :: 128 word) = 0 \<longleftrightarrow> w = 0"
  by (simp add: word_unat_eq_iff unat_ucast_64_128)

lemma emulated_div_fast_path:
  assumes "upper64bits a = 0" "upper64bits b = 0"
  shows "map_sum id to_native (emulated_div a b) = native_div (to_native a) (to_native b)"
  using assms
  by (auto simp add: emulated_div_def native_div_def emulated_isZero_def to_native_low_only
      Int128_def sdiv128_ucast ucast_64_128_eq_0)

lemma emulated_mod_fast_path:
  assumes "upper64bits a = 0" "upper64bits b = 0"
  shows "map_sum id to_native (emulated_mod a b) = native_mod (to_native a) (to_native b)"
  using assms
  by (auto simp add: emulated_mod_def native_mod_def emulated_isZero_def to_native_low_only
      Int128_def smod128_ucast ucast_64_128_eq_0)

subsection \<open>Rounding at an exact tie\<close>

text \<open>
  With one digit to remove there is nothing below the rounding digit, and a 5 is
  resolved towards the even neighbour: 2.5 goes to 2 and 3.5 to 4, and with ties away
  from zero 2.5 goes to 3.
\<close>

lemma round_exact_ties:
  "decimal_round \<lparr>flags = 0x00010000, mantissa0 = 25, mantissa1 = 0, mantissa2 = 0\<rparr>
     0 ToNearest = Inr (Decimal_of_int32 2)"
  "decimal_round \<lparr>flags = 0x00010000, mantissa0 = 35, mantissa1 = 0, mantissa2 = 0\<rparr>
     0 ToNearest = Inr (Decimal_of_int32 4)"
  "decimal_round \<lparr>flags = 0x00010000, mantissa0 = 25, mantissa1 = 0, mantissa2 = 0\<rparr>
     0 ToNearestTiesAway = Inr (Decimal_of_int32 3)"
  by code_simp+

subsection \<open>Addition and subtraction\<close>

text \<open>
  \<^verbatim>\<open>operator+\<close> stores the larger of the two scales and then normalizes, which only
  lowers it; \<^verbatim>\<open>operator-\<close> negates the right operand and adds.  So neither can produce a
  scale above that of its operands.
\<close>

lemma scale_add_flags:
  "scale (d\<lparr>flags := (f AND NOT DECIMAL_SCALE_MASK)
                 OR push_bit DECIMAL_SCALE_SHIFT (ucast (s :: 8 word))\<rparr>) = s"
  using scale_set_scale [of "d\<lparr>flags := f\<rparr>" s] by (simp add: set_scale_def)

lemma scale_decimal_neg: "scale (decimal_neg d) = scale d"
proof -
  have "(flags d XOR DECIMAL_SIGN_MASK) AND DECIMAL_SCALE_MASK = flags d AND DECIMAL_SCALE_MASK"
    by (simp add: bit.conj_xor_distrib2 DECIMAL_SIGN_MASK_def DECIMAL_SCALE_MASK_def)
  then show ?thesis by (simp add: scale_def decimal_neg_def)
qed

lemma decimal_add_scale: "scale (decimal_add a b) \<le> max (scale a) (scale b)"
proof -
  have "scale (normalize_decimal d) \<le> max (scale a) (scale b)"
    if "scale d = max (scale a) (scale b)" for d
    using scale_normalize_le [of d] that by simp
  then show ?thesis
    by (auto simp add: decimal_add_def Let_def split_def scale_set_sign scale_setMantissa
        scale_add_flags)
qed

lemma decimal_sub_scale: "scale (decimal_sub a b) \<le> max (scale a) (scale b)"
  using decimal_add_scale [of a "decimal_neg b"] by (simp add: decimal_sub_def scale_decimal_neg)

text \<open>
  Two decimals with the same scale, sign and mantissa words are the same value, whatever
  their reserved flag bits.  \<^verbatim>\<open>normalize\<close> and \<^verbatim>\<open>operator==\<close> read nothing else, so for
  operands of equal sign, where \<^verbatim>\<open>operator+\<close> adds the aligned mantissas and keeps the
  common sign, the order of the operands does not matter.
\<close>

definition same_value :: "Decimal \<Rightarrow> Decimal \<Rightarrow> bool" where
  "same_value d e =
     (scale d = scale e \<and> isNegative d = isNegative e \<and> mantissa0 d = mantissa0 e
      \<and> mantissa1 d = mantissa1 e \<and> mantissa2 d = mantissa2 e)"

lemma isNegative_bit: "isNegative d \<longleftrightarrow> bit (flags d) 31"
  using and_exp_eq_0_iff_not_bit [of "flags d" 31]
  by (simp add: isNegative_def DECIMAL_SIGN_MASK_def)

lemma isNegative_scale_field:
  "isNegative (d\<lparr>flags := (f AND NOT DECIMAL_SCALE_MASK)
                 OR push_bit DECIMAL_SCALE_SHIFT (ucast (s :: 8 word))\<rparr>) \<longleftrightarrow> bit f 31"
  unfolding isNegative_bit DECIMAL_SCALE_MASK_bits DECIMAL_SCALE_SHIFT_def
  by (auto simp add: bit_simps dest: bit_imp_le_length)

lemma isNegative_set_sign: "isNegative (set_sign d)"
  by (simp add: isNegative_def set_sign_def word_ao_dist or_eq_0_iff DECIMAL_SIGN_MASK_def)

lemma flags_setMantissa: "flags (setMantissa d v) = flags d"
  by (simp add: setMantissa_def)

lemma isNegative_setMantissa: "isNegative (setMantissa d v) = isNegative d"
  by (simp add: isNegative_def setMantissa_def)

lemma same_value_mantissa: "same_value d e \<Longrightarrow> mantissaAsInt128 d = mantissaAsInt128 e"
  by (simp add: same_value_def mantissaAsInt128_def)

lemma same_value_normalize_step:
  assumes "same_value d e" "scale d \<noteq> 0"
  shows "same_value (normalize_step d) (normalize_step e)"
proof -
  have se: "scale e \<noteq> 0" using assms by (simp add: same_value_def)
  have m: "mantissaAsInt128 d = mantissaAsInt128 e" using assms(1) by (rule same_value_mantissa)
  have neg: "isNegative (normalize_step x) = isNegative x" if "scale x \<noteq> 0" for x
  proof -
    have "normalize_step x
            = (divideByPowerOf10 x 1)\<lparr>flags := (flags x AND NOT DECIMAL_SCALE_MASK)
                 OR push_bit DECIMAL_SCALE_SHIFT (ucast (scale x - 1))\<rparr>"
      using that
      by (simp add: normalize_step_def Let_def set_scale_def divideByPowerOf10_def
          scale_setMantissa flags_setMantissa ucast_minus_1)
    then have "isNegative (normalize_step x) \<longleftrightarrow> bit (flags x) 31"
      by (simp only: isNegative_scale_field)
    then show ?thesis by (simp add: isNegative_bit)
  qed
  show ?thesis
    using assms se
    apply (simp add: same_value_def scale_normalize_step neg)
    apply (simp add: normalize_step_def Let_def set_scale_def divideByPowerOf10_def setMantissa_def m)
    done
qed

lemma same_value_normalize:
  "same_value d e \<Longrightarrow> same_value (normalize_decimal d) (normalize_decimal e)"
proof (induction d arbitrary: e rule: normalize_decimal.induct)
  case (1 decimal)
  let ?c = "\<lambda>x. 0 < scale x \<and> smod128 (mantissaAsInt128 x) ten = native_of_int64 0"
  have same_cond: "?c decimal = ?c e"
    using "1.prems" same_value_mantissa [OF "1.prems"] by (simp add: same_value_def)
  show ?case
  proof (cases "?c decimal")
    case True
    then have ce: "?c e" using same_cond by simp
    have nz: "scale decimal \<noteq> 0" using True by auto
    have "normalize_decimal decimal = normalize_decimal (normalize_step decimal)"
      by (subst normalize_decimal.simps) (simp only: True if_True simp_thms)
    moreover have "normalize_decimal e = normalize_decimal (normalize_step e)"
      by (subst normalize_decimal.simps) (simp only: ce if_True simp_thms)
    moreover have "same_value (normalize_decimal (normalize_step decimal))
                     (normalize_decimal (normalize_step e))"
      using "1.IH" [OF True same_value_normalize_step [OF "1.prems" nz]] .
    ultimately show ?thesis by simp
  next
    case False
    then have ce: "\<not> ?c e" using same_cond by simp
    have "normalize_decimal decimal = decimal"
      by (subst normalize_decimal.simps) (simp only: False if_False)
    moreover have "normalize_decimal e = e"
      by (subst normalize_decimal.simps) (simp only: ce if_False)
    ultimately show ?thesis using "1.prems" by simp
  qed
qed

lemma decimal_eq_same_value: "same_value d e \<Longrightarrow> decimal_eq d e"
  by (auto simp add: decimal_eq_def alignScale_def Let_def same_value_def mantissaAsInt128_def)

lemma mantissa_set_sign:
  "mantissa0 (set_sign d) = mantissa0 d" "mantissa1 (set_sign d) = mantissa1 d"
  "mantissa2 (set_sign d) = mantissa2 d"
  by (simp_all add: set_sign_def)

lemma same_value_set_sign: "same_value d e \<Longrightarrow> same_value (set_sign d) (set_sign e)"
  by (simp add: same_value_def scale_set_sign isNegative_set_sign mantissa_set_sign)

lemma alignScale_swap:
  "alignScale b a = (snd (alignScale a b), fst (alignScale a b))"
  by (auto simp add: alignScale_def Let_def)

lemma decimal_add_same_sign_commutes:
  assumes "isNegative a = isNegative b"
  shows "decimal_eq (decimal_add a b) (decimal_add b a)"
proof -
  have refl: "decimal_eq x x" for x
    by (rule decimal_eq_same_value) (simp add: same_value_def)
  show ?thesis
  proof (cases "isZero a \<or> isZero b")
    case True
    show ?thesis
    proof (cases "isZero a \<and> isZero b")
      case True
      then show ?thesis by (simp add: decimal_add_def decimal_eq_def)
    next
      case False
      with \<open>isZero a \<or> isZero b\<close>
      consider "isZero a" "\<not> isZero b" | "\<not> isZero a" "isZero b" by blast
      then show ?thesis
      proof cases
        case 1
        then have "decimal_add a b = b" "decimal_add b a = b"
          by (simp_all add: decimal_add_def)
        then show ?thesis by (simp add: refl)
      next
        case 2
        then have "decimal_add a b = a" "decimal_add b a = a"
          by (simp_all add: decimal_add_def)
        then show ?thesis by (simp add: refl)
      qed
    qed
  next
    case False
    obtain l r where lr: "alignScale a b = (l, r)" by (cases "alignScale a b")
    have rl: "alignScale b a = (r, l)" by (subst alignScale_swap) (simp add: lr)
    let ?x = "\<lambda>f. (setMantissa Decimal_zero (native_add l r))\<lparr>flags :=
                 (f AND NOT DECIMAL_SCALE_MASK)
                   OR push_bit DECIMAL_SCALE_SHIFT (ucast (max (scale a) (scale b)))\<rparr>"
    let ?s = "\<lambda>f. if isNegative a then set_sign (?x f) else ?x f"
    have ab: "decimal_add a b = normalize_decimal (?s (flags a))"
      using False assms by (simp add: decimal_add_def lr Let_def)
    have ba: "decimal_add b a = normalize_decimal (?s (flags b))"
      using False assms
      by (simp add: decimal_add_def rl Let_def native_add_def add.commute max.commute)
    have n: "isNegative (?x f) \<longleftrightarrow> bit f 31" for f
      by (rule isNegative_scale_field)
    have bits: "bit (flags a) 31 = bit (flags b) 31"
      using assms by (simp only: isNegative_bit)
    have sx: "same_value (?x (flags a)) (?x (flags b))"
      unfolding same_value_def n scale_add_flags using bits by simp
    have "same_value (?s (flags a)) (?s (flags b))"
    proof (cases "isNegative a")
      case True
      then show ?thesis using same_value_set_sign [OF sx] by simp
    next
      case False
      then show ?thesis using sx by simp
    qed
    then have "same_value (decimal_add a b) (decimal_add b a)"
      unfolding ab ba by (rule same_value_normalize)
    then show ?thesis by (rule decimal_eq_same_value)
  qed
qed

section \<open>Claims\<close>

subsection \<open>C1: commutativity of Decimal addition\<close>

text \<open>
  Claim C1 says that \<open>a + b\<close> equals \<open>b + a\<close> for Decimal operands, also when their
  signs differ. \<^verbatim>\<open>operator+\<close> copies the sign bit of its left operand into the result
  and, when the right operand is the larger magnitude, only ever sets that bit. So
  \<open>-1 + 2\<close> is \<open>-1\<close> while \<open>2 + -1\<close> is \<open>1\<close>, and \<^verbatim>\<open>operator==\<close> tells them apart.
  For operands of equal sign the two sums are equal (\<open>decimal_add_same_sign_commutes\<close>).
\<close>

theorem decimal_add_mixed_signs_not_commutative:
  "decimal_add (Decimal_of_int32 (- 1)) (Decimal_of_int32 2) = Decimal_of_int32 (- 1)
   \<and> decimal_add (Decimal_of_int32 2) (Decimal_of_int32 (- 1)) = Decimal_of_int32 1
   \<and> decimal_eq (decimal_add (Decimal_of_int32 (- 1)) (Decimal_of_int32 2))
         (decimal_add (Decimal_of_int32 2) (Decimal_of_int32 (- 1))) = False"
  by code_simp

subsection \<open>C2: the representation invariant after arithmetic\<close>

text \<open>
  Claim C2 says that every result of \<open>+\<close>, \<open>-\<close>, \<open>*\<close> and \<open>/\<close> has a scale of at most
  28. \<^verbatim>\<open>operator/\<close> adds up to 18 to the difference of the operand scales and stores
  the sum unchecked: \<open>0.00000000001 / 3\<close> is the mantissa \<open>333333333333333333\<close> at
  scale 29. The loop of \<^verbatim>\<open>operator*\<close> keeps its results within the bound
  (\<open>decimal_mul_scale\<close>), and \<^verbatim>\<open>operator+\<close> and \<^verbatim>\<open>operator-\<close> never exceed the larger
  scale of their operands (\<open>decimal_add_scale\<close>, \<open>decimal_sub_scale\<close>).
\<close>

theorem decimal_div_scale_exceeds_maximum:
  "tryParse ''0.00000000001''
     = (True, \<lparr>flags = 0x000B0000, mantissa0 = 1, mantissa1 = 0, mantissa2 = 0\<rparr>)
   \<and> tryParse ''3'' = (True, \<lparr>flags = 0, mantissa0 = 3, mantissa1 = 0, mantissa2 = 0\<rparr>)
   \<and> decimal_div \<lparr>flags = 0x000B0000, mantissa0 = 1, mantissa1 = 0, mantissa2 = 0\<rparr>
         \<lparr>flags = 0, mantissa0 = 3, mantissa1 = 0, mantissa2 = 0\<rparr>
       = Inr \<lparr>flags = 0x001D0000, mantissa0 = 2367771989, mantissa1 = 77610214, mantissa2 = 0\<rparr>
   \<and> scale \<lparr>flags = 0x001D0000, mantissa0 = 2367771989, mantissa1 = 77610214, mantissa2 = 0\<rparr>
       = 29
   \<and> DECIMAL_MAXIMUM_PLACES < 29"
  by code_simp

subsection \<open>C3: the round trip through text\<close>

text \<open>
  Claim C3 says that parsing the text of any Decimal gives the Decimal back, and names
  \<^verbatim>\<open>maxValue()\<close>. Its text has 29 digits; \<^verbatim>\<open>tryParse\<close> stops after 28 and keeps
  the scale 0, so the value that comes back is a tenth of the maximum, rounded down.
\<close>

theorem maxValue_round_trip_fails:
  "toString maxValue = ''79228162514264337593543950335''
   \<and> tryParse (toString maxValue)
       = (True, \<lparr>flags = 0, mantissa0 = 2576980377, mantissa1 = 2576980377,
                   mantissa2 = 429496729\<rparr>)
   \<and> toString \<lparr>flags = 0, mantissa0 = 2576980377, mantissa1 = 2576980377,
                  mantissa2 = 429496729\<rparr> = ''7922816251426433759354395033''
   \<and> decimal_eq \<lparr>flags = 0, mantissa0 = 2576980377, mantissa1 = 2576980377,
                    mantissa2 = 429496729\<rparr> maxValue = False"
  by code_simp

subsection \<open>C4: literals with more than 28 significant digits\<close>

text \<open>
  Claim C4 says that a literal with more than 28 significant digits parses to the
  literal truncated to its first 28, also for 29 digits without a decimal point. For
  such a literal \<^verbatim>\<open>tryParse\<close> leaves the loop with the first 28 digits accumulated and
  the scale 0: the 29-digit integer parses to the same Decimal as its first 28 digits,
  a tenth of the truncated literal.
\<close>

theorem tryParse_29_digit_integer_loses_magnitude:
  "tryParse ''12345678901234567890123456789''
     = (True, \<lparr>flags = 0, mantissa0 = 3191403342, mantissa1 = 1836677777,
                 mantissa2 = 66926059\<rparr>)
   \<and> tryParse ''1234567890123456789012345678''
     = (True, \<lparr>flags = 0, mantissa0 = 3191403342, mantissa1 = 1836677777,
                 mantissa2 = 66926059\<rparr>)
   \<and> toString \<lparr>flags = 0, mantissa0 = 3191403342, mantissa1 = 1836677777,
                  mantissa2 = 66926059\<rparr> = ''1234567890123456789012345678''"
  by code_simp

subsection \<open>C5: rounding to nearest\<close>

text \<open>
  Claim C5 says that \<^verbatim>\<open>round(places, ToNearest)\<close> rounds away from zero when the first
  discarded digit is 5 and a nonzero digit follows it, with 2.55 going to 3. The test
  for a following digit compares the digits below the rounding digit with five units
  one place further down, so for 2.55 it compares 5 with 5, finds a tie and keeps the
  even 2. The exact ties of the claim, 2.5 and 3.5, come out as it says
  (\<open>round_exact_ties\<close>).
\<close>

theorem round_ToNearest_2_55_gives_2:
  "tryParse ''2.55''
     = (True, \<lparr>flags = 0x00020000, mantissa0 = 255, mantissa1 = 0, mantissa2 = 0\<rparr>)
   \<and> decimal_round \<lparr>flags = 0x00020000, mantissa0 = 255, mantissa1 = 0, mantissa2 = 0\<rparr>
         0 ToNearest = Inr (Decimal_of_int32 2)"
  by code_simp

subsection \<open>C6: division by zero\<close>

text \<open>
  Claim C6: dividing by a zero of the same type raises DivisionByZero, for
  \<^verbatim>\<open>Int128\<close> on either path (also for the remainder) and for Decimal, whatever the sign
  and scale of the zero; and a compound assignment that faults leaves its target as it
  was. The operands of the binary operators are constant references, which the model
  reflects by taking them as values.
\<close>

theorem division_by_zero_faults:
  "native_isZero nz \<Longrightarrow> emulated_isZero ez \<Longrightarrow> isZero dz \<Longrightarrow>
     native_div a nz = Inl DivisionByZero
     \<and> native_mod a nz = Inl DivisionByZero
     \<and> native_div_assign a nz = (Some DivisionByZero, a)
     \<and> native_mod_assign a nz = (Some DivisionByZero, a)
     \<and> emulated_div e ez = Inl DivisionByZero
     \<and> emulated_mod e ez = Inl DivisionByZero
     \<and> emulated_div_assign e ez = (Some DivisionByZero, e)
     \<and> emulated_mod_assign e ez = (Some DivisionByZero, e)
     \<and> decimal_div d dz = Inl DivisionByZero
     \<and> decimal_div_assign d dz = (Some DivisionByZero, d)"
  by (simp add: native_isZero_def native_div_def native_mod_def native_div_assign_def
      native_mod_assign_def emulated_div_def emulated_mod_def emulated_div_assign_def
      emulated_mod_assign_def decimal_div_def decimal_div_assign_def)

theorem division_by_zero_faults_witness:
  "native_isZero (native_of_int64 0)
   \<and> emulated_isZero (Int128 0 0)
   \<and> isZero \<lparr>flags = 0x80020000, mantissa0 = 0, mantissa1 = 0, mantissa2 = 0\<rparr>
   \<and> native_div 7 (native_of_int64 0) = Inl DivisionByZero
   \<and> native_mod_assign 7 (native_of_int64 0) = (Some DivisionByZero, 7)
   \<and> emulated_mod (Int128 7 0) (Int128 0 0) = Inl DivisionByZero
   \<and> emulated_div_assign (Int128 7 0) (Int128 0 0) = (Some DivisionByZero, Int128 7 0)
   \<and> decimal_div_assign (Decimal_of_int32 7)
         \<lparr>flags = 0x80020000, mantissa0 = 0, mantissa1 = 0, mantissa2 = 0\<rparr>
       = (Some DivisionByZero, Decimal_of_int32 7)"
proof -
  have n: "native_isZero (native_of_int64 0)"
    by (simp add: native_isZero_def native_of_int64_def)
  have e: "emulated_isZero (Int128 0 0)"
    by (simp add: emulated_isZero_def Int128_def)
  have d: "isZero \<lparr>flags = 0x80020000, mantissa0 = 0, mantissa1 = 0, mantissa2 = 0\<rparr>"
    by (simp add: isZero_def)
  show ?thesis
    using n e d
      division_by_zero_faults [OF n e d, of 7 "Int128 7 0" "Decimal_of_int32 7"]
    by simp
qed

subsection \<open>C7: the remainder of Int128\<close>

text \<open>
  Claim C7 says that \<open>a % b\<close> has the sign of the dividend on both paths. On the
  emulated path a negative dividend with a divisor that fits 64 bits takes the 128/64
  tier of the division, which reads the dividend as unsigned; the remainder computed
  from that quotient for \<open>-10 % 4\<close> is \<open>2\<close>, where the native path gives \<open>-2\<close>.
  The native path does what the claim says for every nonzero divisor
  (\<open>native_mod_identity\<close>, \<open>native_mod_sign_and_magnitude\<close>).
\<close>

theorem emulated_mod_negative_dividend_positive_result:
  "emulated_mod (Int128_of_int64 (- 10)) (Int128_of_int64 4) = Inr (Int128_of_int64 2)
   \<and> emulated_isNegative (Int128_of_int64 (- 10)) = True
   \<and> emulated_isNegative (Int128_of_int64 2) = False
   \<and> native_mod (native_of_int64 (- 10)) (native_of_int64 4) = Inr (native_of_int64 (- 2))"
  by code_simp

subsection \<open>C8: Int128 from a float\<close>

text \<open>
  Claim C8 says that a float inside the range of \<^verbatim>\<open>Int128\<close> converts to its truncated
  value, with \<open>1e20\<close> as the example. The float nearest to \<open>1e20\<close> is
  \<open>11368684 \<sqdot> 2^43 = 100000002004087734272\<close>. The constructor from \<^verbatim>\<open>float\<close> clamps
  everything beyond the range of \<^verbatim>\<open>int64_t\<close>, so the result is \<open>2^63 - 1\<close>.
\<close>

theorem Int128_of_float_1e20_clamps_to_int64:
  "trunc False 11368684 43 = 100000002004087734272
   \<and> Int128_of_float (Finite False 11368684 43) = native_of_int64 INT64_MAX
   \<and> native_of_int64 INT64_MAX = 9223372036854775807"
proof -
  have truncated: "trunc False 11368684 43 = 100000002004087734272"
    by (simp add: trunc_def)
  have "Int128_of_float (Finite False 11368684 43) = native_of_int64 INT64_MAX"
    by (simp add: Int128_of_float_def truncated INT64_MAX_as_double_def
        INT64_MIN_as_double_def)
  moreover have "native_of_int64 INT64_MAX = 9223372036854775807"
    by code_simp
  ultimately show ?thesis using truncated by simp
qed

subsection \<open>C9: emulated against native multiplication and division\<close>

text \<open>
  Claim C9 says that for operands whose magnitudes fit 64 bits the emulated quotient is
  the native one. For \<open>-10 / 4\<close> the emulated path returns \<open>2^126 - 3\<close>, the quotient of
  the dividend read as the unsigned \<open>2^128 - 10\<close>; the native path returns \<open>-2\<close>.
  The multiplication is exact on every pair of operands (\<open>to_native_emulated_mul\<close>),
  and the division agrees with the native one when both upper words are zero
  (\<open>emulated_div_fast_path\<close>).
\<close>

theorem emulated_div_negative_dividend_differs_from_native:
  "emulated_div (Int128_of_int64 (- 10)) (Int128_of_int64 4)
     = Inr (Int128 0xFFFFFFFFFFFFFFFD 0x3FFFFFFFFFFFFFFF)
   \<and> to_native (Int128 0xFFFFFFFFFFFFFFFD 0x3FFFFFFFFFFFFFFF)
     = 85070591730234615865843651857942052861
   \<and> to_native (Int128_of_int64 (- 10)) = native_of_int64 (- 10)
   \<and> to_native (Int128_of_int64 4) = native_of_int64 4
   \<and> native_div (native_of_int64 (- 10)) (native_of_int64 4) = Inr (native_of_int64 (- 2))"
  by code_simp

subsection \<open>C10: a negative number of places\<close>

text \<open>
  Claim C10: \<^verbatim>\<open>round\<close> with a negative number of places is \<^verbatim>\<open>round\<close> with zero
  places, for every value and every mode.
\<close>

theorem round_negative_places_is_round_zero:
  "places <s 0 \<Longrightarrow> decimal_round x places mode = decimal_round x 0 mode"
  by (simp add: decimal_round_def)

theorem round_negative_places_is_round_zero_witness:
  "(- 2 :: 32 word) <s 0
   \<and> decimal_round \<lparr>flags = 0x00020000, mantissa0 = 255, mantissa1 = 0, mantissa2 = 0\<rparr>
        (- 2) ToNearestTiesAway = Inr (Decimal_of_int32 3)"
proof -
  have neg: "(- 2 :: 32 word) <s 0" by code_simp
  have "decimal_round \<lparr>flags = 0x00020000, mantissa0 = 255, mantissa1 = 0, mantissa2 = 0\<rparr>
          0 ToNearestTiesAway = Inr (Decimal_of_int32 3)"
    by code_simp
  with neg round_negative_places_is_round_zero [OF neg] show ?thesis by simp
qed

end
